theory Spec2Isabelle
  imports Complex_Main "HOL-Library.Word" "HOL-Library.Sublist"
begin

unbundle bit_operations_syntax

section \<open>Common types\<close>

type_synonym byte = "8 word"

text \<open>
  Go reports failures as error values carrying a message. The constructors below stand for
  the messages of the two packages:
  \<^item> \<open>IOError\<close>: an error of the operating system (\<open>os.Create\<close>, \<open>File.Write\<close>,
    \<open>ioutil.ReadFile\<close>);
  \<^item> \<open>InvalidParameters\<close>: "values must be greater than zero (...)";
  \<^item> \<open>MisalignedData\<close>: "data size not divisible by channels" and "invalid input length";
  \<^item> \<open>TooSmall\<close>: "invalid WAV file size (too small)";
  \<^item> \<open>InvalidHeaderFormat\<close>: "invalid WAV header format" (one message for a wrong magic,
    a wrong format tag and a format code other than 1);
  \<^item> \<open>UnsupportedBitDepth\<close>: "unsupported bits per sample format";
  \<^item> \<open>StoreError\<close>: the document store is unreachable or rejected the operation ("error upserting document", "error retrieving document for address");
  \<^item> \<open>CorruptRecord a\<close>: "couples field in document for address a is not valid" and
    "invalid couple format in document for address a";
  \<^item> \<open>DuplicateSong\<close>: "song with ytID or key already exists";
  \<^item> \<open>RegistryError\<close>: "failed to create unique index", "failed to register song",
    "failed to retrieve song";
  \<^item> \<open>InvalidFilter\<close>: "invalid filter key";
  \<^item> \<open>GoPanic\<close>: not a returned error: the run-time panic of an unchecked type
    assertion, of an index out of range or of an integer division by zero.
\<close>

datatype error =
    IOError
  | InvalidParameters
  | MisalignedData
  | TooSmall
  | InvalidHeaderFormat
  | UnsupportedBitDepth
  | StoreError
  | CorruptRecord "32 word"
  | DuplicateSong
  | RegistryError
  | InvalidFilter
  | GoPanic

section \<open>Package wav\<close>

subsection \<open>Little-endian byte order (encoding/binary)\<close>

text \<open>\<open>binary.LittleEndian.Uint16(b)\<close> is \<open>uint16(b[0]) | uint16(b[1])<<8\<close>.\<close>

definition Uint16 :: "byte list \<Rightarrow> 16 word" where
  "Uint16 b = ucast (b ! 0) OR push_bit 8 (ucast (b ! 1))"

definition Uint32 :: "byte list \<Rightarrow> 32 word" where
  "Uint32 b = ucast (b ! 0) OR push_bit 8 (ucast (b ! 1))
     OR push_bit 16 (ucast (b ! 2)) OR push_bit 24 (ucast (b ! 3))"

definition PutUint16 :: "16 word \<Rightarrow> byte list" where
  "PutUint16 v = [ucast v, ucast (drop_bit 8 v)]"

definition PutUint32 :: "32 word \<Rightarrow> byte list" where
  "PutUint32 v = [ucast v, ucast (drop_bit 8 v), ucast (drop_bit 16 v), ucast (drop_bit 24 v)]"

text \<open>The slice expression \<open>xs[lo:hi]\<close>, for \<open>lo \<le> hi \<le> len(xs)\<close>.\<close>

definition go_slice :: "'a list \<Rightarrow> nat \<Rightarrow> nat \<Rightarrow> 'a list" where
  "go_slice xs lo hi = take (hi - lo) (drop lo xs)"

subsection \<open>Integers\<close>

text \<open>
  Go's \<open>int\<close> is modelled by \<open>int\<close>. Every product the code forms is converted to
  \<open>uint16\<close> or \<open>uint32\<close> at once, and the low 16 or 32 bits of a product are the same
  with and without the wrap-around of a 64-bit \<open>int\<close>; the conversions themselves are
  \<open>word_of_int\<close>, which keeps the low bits as Go does. Go's \<open>/\<close> and \<open>%\<close> truncate
  towards zero.
\<close>

definition go_quo :: "int \<Rightarrow> int \<Rightarrow> int" where
  "go_quo a b = sgn a * sgn b * (\<bar>a\<bar> div \<bar>b\<bar>)"

definition go_rem :: "int \<Rightarrow> int \<Rightarrow> int" where
  "go_rem a b = a - b * go_quo a b"

subsection \<open>The header\<close>

record WavHeader =
  ChunkID :: "byte list"
  ChunkSize :: "32 word"
  Format :: "byte list"
  Subchunk1ID :: "byte list"
  Subchunk1Size :: "32 word"
  AudioFormat :: "16 word"
  NumChannels :: "16 word"
  SampleRate :: "32 word"
  BytesPerSec :: "32 word"
  BlockAlign :: "16 word"
  BitsPerSample :: "16 word"
  Subchunk2ID :: "byte list"
  Subchunk2Size :: "32 word"

definition ascii :: "string \<Rightarrow> byte list" where
  "ascii s = map (\<lambda>c. of_nat (of_char c)) s"

text \<open>
  \<open>binary.Write\<close> and \<open>binary.Read\<close> with \<open>binary.LittleEndian\<close> on the struct: the
  fields in their order, 44 bytes in all. The arrays \<open>[4]byte\<close> are lists of length 4.
\<close>

definition binary_Write :: "WavHeader \<Rightarrow> byte list" where
  "binary_Write h =
     take 4 (ChunkID h) @ PutUint32 (ChunkSize h) @ take 4 (Format h) @
     take 4 (Subchunk1ID h) @ PutUint32 (Subchunk1Size h) @
     PutUint16 (AudioFormat h) @ PutUint16 (NumChannels h) @
     PutUint32 (SampleRate h) @ PutUint32 (BytesPerSec h) @
     PutUint16 (BlockAlign h) @ PutUint16 (BitsPerSample h) @
     take 4 (Subchunk2ID h) @ PutUint32 (Subchunk2Size h)"

definition binary_Read :: "byte list \<Rightarrow> error + WavHeader" where
  "binary_Read b =
     (if length b < 44 then Inl IOError
      else Inr \<lparr>
        ChunkID = go_slice b 0 4,
        ChunkSize = Uint32 (go_slice b 4 8),
        Format = go_slice b 8 12,
        Subchunk1ID = go_slice b 12 16,
        Subchunk1Size = Uint32 (go_slice b 16 20),
        AudioFormat = Uint16 (go_slice b 20 22),
        NumChannels = Uint16 (go_slice b 22 24),
        SampleRate = Uint32 (go_slice b 24 28),
        BytesPerSec = Uint32 (go_slice b 28 32),
        BlockAlign = Uint16 (go_slice b 32 34),
        BitsPerSample = Uint16 (go_slice b 34 36),
        Subchunk2ID = go_slice b 36 40,
        Subchunk2Size = Uint32 (go_slice b 40 44) \<rparr>)"

subsection \<open>Files\<close>

text \<open>
  The file system the package writes to and reads from: the contents of the files, the
  paths that cannot be opened for writing, and the free space in bytes. A write that does
  not fit writes what fits and reports an error.
\<close>

record filesystem =
  files :: "string \<rightharpoonup> byte list"
  denied :: "string \<Rightarrow> bool"
  space :: nat

text \<open>\<open>os.Create\<close> creates the file, or truncates it when it exists.\<close>

definition os_Create :: "filesystem \<Rightarrow> string \<Rightarrow> error + filesystem" where
  "os_Create fs name =
     (if denied fs name then Inl IOError
      else Inr (fs\<lparr>files := (files fs)(name \<mapsto> [])\<rparr>))"

definition file_Write :: "filesystem \<Rightarrow> string \<Rightarrow> byte list \<Rightarrow> error option \<times> filesystem" where
  "file_Write fs name bs =
     (let n = min (length bs) (space fs);
          old = (case files fs name of None \<Rightarrow> [] | Some d \<Rightarrow> d);
          fs' = fs\<lparr>files := (files fs)(name \<mapsto> old @ take n bs), space := space fs - n\<rparr>
      in (if n < length bs then Some IOError else None, fs'))"

definition ioutil_ReadFile :: "filesystem \<Rightarrow> string \<Rightarrow> error + byte list" where
  "ioutil_ReadFile fs name = (case files fs name of None \<Rightarrow> Inl IOError | Some d \<Rightarrow> Inr d)"

subsection \<open>writeWavHeader and WriteWavFile\<close>

definition writeWavHeader ::
  "filesystem \<Rightarrow> string \<Rightarrow> byte list \<Rightarrow> int \<Rightarrow> int \<Rightarrow> int \<Rightarrow> error option \<times> filesystem" where
  "writeWavHeader fs f data sampleRate channels bitsPerSample =
     (if channels = 0 then (Some GoPanic, fs)
      else if go_rem (int (length data)) channels \<noteq> 0 then (Some MisalignedData, fs)
      else
        let subchunk1Size = (16 :: 32 word);
            bytesPerSample = go_quo bitsPerSample 8;
            blockAlign = (word_of_int (channels * bytesPerSample) :: 16 word);
            subchunk2Size = (word_of_int (int (length data)) :: 32 word);
            header = \<lparr>
              ChunkID = ascii ''RIFF'',
              ChunkSize = word_of_int (36 + int (length data)),
              Format = ascii ''WAVE'',
              Subchunk1ID = ascii ''fmt '',
              Subchunk1Size = subchunk1Size,
              AudioFormat = 1,
              NumChannels = word_of_int channels,
              SampleRate = word_of_int sampleRate,
              BytesPerSec = word_of_int (sampleRate * channels * bytesPerSample),
              BlockAlign = blockAlign,
              BitsPerSample = word_of_int bitsPerSample,
              Subchunk2ID = ascii ''data'',
              Subchunk2Size = subchunk2Size \<rparr>
        in file_Write fs f (binary_Write header))"

definition WriteWavFile ::
  "filesystem \<Rightarrow> string \<Rightarrow> byte list \<Rightarrow> int \<Rightarrow> int \<Rightarrow> int \<Rightarrow> error option \<times> filesystem" where
  "WriteWavFile fs filename data sampleRate channels bitsPerSample =
     (case os_Create fs filename of
        Inl err \<Rightarrow> (Some err, fs)
      | Inr fs1 \<Rightarrow>
          if sampleRate \<le> 0 \<or> channels \<le> 0 \<or> bitsPerSample \<le> 0
          then (Some InvalidParameters, fs1)
          else
            (case writeWavHeader fs1 filename data sampleRate channels bitsPerSample of
               (Some err, fs2) \<Rightarrow> (Some err, fs2)
             | (None, fs2) \<Rightarrow> file_Write fs2 filename data))"

subsection \<open>ReadWavInfo\<close>

text \<open>
  \<open>Duration\<close> is the \<open>float64\<close> quotient
  \<open>float64(len(Data)) / float64(Channels * 2 * SampleRate)\<close>. The rounding of IEEE
  arithmetic is not modelled: the field keeps the two operands of the division.
\<close>

datatype f64_quotient = F64Div nat int

record WavInfo =
  Channels :: int
  SampleRate_info :: int
  Data :: "byte list"
  Duration :: f64_quotient

definition ReadWavInfo :: "filesystem \<Rightarrow> string \<Rightarrow> error + WavInfo" where
  "ReadWavInfo fs filename =
     (case ioutil_ReadFile fs filename of
        Inl err \<Rightarrow> Inl err
      | Inr data \<Rightarrow>
          if length data < 44 then Inl TooSmall
          else
            (case binary_Read (go_slice data 0 44) of
               Inl err \<Rightarrow> Inl err
             | Inr header \<Rightarrow>
                 if ChunkID header \<noteq> ascii ''RIFF'' \<or> Format header \<noteq> ascii ''WAVE''
                    \<or> AudioFormat header \<noteq> 1
                 then Inl InvalidHeaderFormat
                 else
                   let info = \<lparr>
                         Channels = uint (NumChannels header),
                         SampleRate_info = uint (SampleRate header),
                         Data = drop 44 data,
                         Duration = F64Div 0 0 \<rparr>
                   in if BitsPerSample header = 16
                      then Inr (info\<lparr>Duration :=
                             F64Div (length (Data info))
                               (uint (NumChannels header) * 2 * uint (SampleRate header))\<rparr>)
                      else Inl UnsupportedBitDepth))"

subsection \<open>WavBytesToSamples\<close>

text \<open>
  A sample is \<open>float64(int16) / 32768.0\<close>. Every \<open>int16\<close> is a \<open>float64\<close>, and the
  division by \<open>2^15\<close> only changes the exponent, so the \<open>float64\<close> result is the real
  number itself: samples are modelled as \<open>real\<close>. The loop runs over the byte index
  \<open>i\<close> in steps of 2 and stores into \<open>output[i/2]\<close>; \<open>make\<close> fills the slice with
  zeros.
\<close>

function samples_loop :: "byte list \<Rightarrow> nat \<Rightarrow> real list \<Rightarrow> error + real list" where
  "samples_loop input i output =
     (if i < length input then
        (if length input < i + 2 \<or> length output \<le> i div 2 then Inl GoPanic
         else
           let sample = Uint16 (go_slice input i (i + 2)) in
           samples_loop input (i + 2) (output[i div 2 := real_of_int (sint sample) / 32768]))
      else Inr output)"
  by pat_completeness auto
termination
  by (relation "measure (\<lambda>(input, i, output). length input - i)") auto

declare samples_loop.simps [simp del]

definition WavBytesToSamples :: "byte list \<Rightarrow> error + real list" where
  "WavBytesToSamples input =
     (if length input mod 2 \<noteq> 0 then Inl MisalignedData
      else samples_loop input 0 (replicate (length input div 2) 0))"

text \<open>
  The value of the 16-bit little-endian two's-complement sample whose low byte is \<open>lo\<close>
  and whose high byte is \<open>hi\<close>, written with integer arithmetic.
\<close>

definition int16_le :: "byte \<Rightarrow> byte \<Rightarrow> int" where
  "int16_le lo hi = (let u = uint lo + 256 * uint hi in if u < 32768 then u else u - 65536)"

definition sample_at :: "byte list \<Rightarrow> nat \<Rightarrow> real" where
  "sample_at input k = real_of_int (int16_le (input ! (2 * k)) (input ! (2 * k + 1))) / 32768"

subsection \<open>Auxiliary definitions for the statements\<close>

text \<open>The header that \<open>writeWavHeader\<close> builds, as a function of its arguments.\<close>

definition wav_header_of :: "byte list \<Rightarrow> int \<Rightarrow> int \<Rightarrow> int \<Rightarrow> WavHeader" where
  "wav_header_of data sampleRate channels bitsPerSample = \<lparr>
      ChunkID = ascii ''RIFF'',
      ChunkSize = word_of_int (36 + int (length data)),
      Format = ascii ''WAVE'',
      Subchunk1ID = ascii ''fmt '',
      Subchunk1Size = 16,
      AudioFormat = 1,
      NumChannels = word_of_int channels,
      SampleRate = word_of_int sampleRate,
      BytesPerSec = word_of_int (sampleRate * channels * go_quo bitsPerSample 8),
      BlockAlign = word_of_int (channels * go_quo bitsPerSample 8),
      BitsPerSample = word_of_int bitsPerSample,
      Subchunk2ID = ascii ''data'',
      Subchunk2Size = word_of_int (int (length data)) \<rparr>"

text \<open>An empty file system with room for 1000 bytes.\<close>

definition fs0 :: filesystem where
  "fs0 = \<lparr>files = Map.empty, denied = (\<lambda>_. False), space = 1000\<rparr>"

text \<open>The unsigned 16-bit little-endian field at byte offset \<open>off\<close>.\<close>

definition field16 :: "byte list \<Rightarrow> nat \<Rightarrow> int" where
  "field16 data off = uint (data ! off) + 256 * uint (data ! (off + 1))"

text \<open>
  A 44-byte header of a mono PCM file at 8000 Hz whose bits-per-sample field is \<open>bits\<close>,
  and a file system holding one file.
\<close>

definition pcm_header :: "byte \<Rightarrow> byte list" where
  "pcm_header bits =
     ascii ''RIFF'' @ [38, 0, 0, 0] @ ascii ''WAVE'' @ ascii ''fmt '' @ [16, 0, 0, 0] @
     [1, 0] @ [1, 0] @ [0x40, 0x1F, 0, 0] @ [0x40, 0x1F, 0, 0] @ [1, 0] @ [bits, 0] @
     ascii ''data'' @ [2, 0, 0, 0]"

definition fs_with :: "string \<Rightarrow> byte list \<Rightarrow> filesystem" where
  "fs_with name d = \<lparr>files = [name \<mapsto> d], denied = (\<lambda>_. False), space = 1000\<rparr>"

section \<open>Package utils: the database client\<close>

subsection \<open>Documents\<close>

text \<open>
  The values of a document as the driver decodes them into \<open>bson.M\<close>: a nested array is
  a \<open>primitive.A\<close>, a nested document a \<open>primitive.M\<close>, a 64-bit integer an \<open>int64\<close>,
  a 32-bit integer an \<open>int32\<close>. A document is the list of its fields; \<open>map_of\<close> reads a
  field, and a missing field is \<open>None\<close> (Go's \<open>nil\<close> interface).
\<close>

datatype bson =
    BNull
  | BInt32 int
  | BInt64 int
  | BString string
  | BArray "bson list"
  | BDoc "(string \<times> bson) list"

type_synonym doc = "(string \<times> bson) list"

text \<open>
  Modelled from the spec: the type \<open>models.Couple\<close> is not under src/. The spec gives it as
  \<open>{anchorTimeMs: unsigned 32-bit, songID: unsigned 32-bit}\<close>, and the code reads and
  writes the fields \<open>AnchorTimeMs\<close> and \<open>SongID\<close> as \<open>uint32\<close>.
\<close>

record Couple =
  AnchorTimeMs :: "32 word"
  SongID :: "32 word"

text \<open>The driver writes a \<open>uint32\<close> as a 64-bit integer.\<close>

definition bson_uint32 :: "32 word \<Rightarrow> bson" where
  "bson_uint32 w = BInt64 (uint w)"

subsection \<open>The document store\<close>

text \<open>
  The database "song-recognition" behind the client: whether the server answers, the
  collections "fingerprints" and "songs" in their natural order, and whether the unique
  compound index on (ytID, key) exists on "songs". A query \<open>{k: v}\<close> matches a document
  whose field \<open>k\<close> equals \<open>v\<close>, integers of both widths comparing by value and a missing
  field comparing as null. (Matching an element of an array field is not modelled; no
  document the client writes has an array under a queried field.)
\<close>

record store =
  online :: bool
  fingerprints :: "doc list"
  songs :: "doc list"
  songs_index :: bool

datatype mongo_error = ErrNoDocuments | DuplicateKeyError | WriteError | NetworkError

definition canon :: "bson \<Rightarrow> bson" where
  "canon v = (case v of BInt32 n \<Rightarrow> BInt64 n | _ \<Rightarrow> v)"

definition field_or_null :: "doc \<Rightarrow> string \<Rightarrow> bson" where
  "field_or_null d k = (case map_of d k of None \<Rightarrow> BNull | Some v \<Rightarrow> v)"

definition matches :: "string \<Rightarrow> bson \<Rightarrow> doc \<Rightarrow> bool" where
  "matches k v d = (canon (field_or_null d k) = canon v)"

definition FindOne :: "bool \<Rightarrow> doc list \<Rightarrow> string \<Rightarrow> bson \<Rightarrow> mongo_error + doc" where
  "FindOne up coll k v =
     (if \<not> up then Inl NetworkError
      else case find (matches k v) coll of None \<Rightarrow> Inl ErrNoDocuments | Some d \<Rightarrow> Inr d)"

fun set_field :: "doc \<Rightarrow> string \<Rightarrow> bson \<Rightarrow> doc" where
  "set_field [] k v = [(k, v)]"
| "set_field ((k', v') # d) k v = (if k' = k then (k, v) # d else (k', v') # set_field d k v)"

text \<open>
  The update \<open>{$push: {f: item}}\<close> on one document: the array grows at its end, a missing
  field becomes a one-element array, and a field that is not an array is a write error.
\<close>

definition push_field :: "doc \<Rightarrow> string \<Rightarrow> bson \<Rightarrow> mongo_error + doc" where
  "push_field d f item =
     (case map_of d f of
        None \<Rightarrow> Inr (set_field d f (BArray [item]))
      | Some (BArray xs) \<Rightarrow> Inr (set_field d f (BArray (xs @ [item])))
      | Some _ \<Rightarrow> Inl WriteError)"

text \<open>
  \<open>UpdateOne\<close> with the filter \<open>{_id: id}\<close>, the update \<open>{$push: {f: item}}\<close> and
  \<open>SetUpsert(true)\<close>: the first matching document is updated; when none matches, the
  document \<open>{_id: id, f: [item]}\<close> is inserted.
\<close>

fun push_first :: "doc list \<Rightarrow> bson \<Rightarrow> string \<Rightarrow> bson \<Rightarrow> mongo_error + doc list" where
  "push_first [] ident f item = Inr [ [(''_id'', ident), (f, BArray [item])] ]"
| "push_first (d # ds) ident f item =
     (if matches ''_id'' ident d
      then (case push_field d f item of Inl e \<Rightarrow> Inl e | Inr d' \<Rightarrow> Inr (d' # ds))
      else (case push_first ds ident f item of Inl e \<Rightarrow> Inl e | Inr ds' \<Rightarrow> Inr (d # ds')))"

definition UpdateOne_push_upsert :: "bool \<Rightarrow> doc list \<Rightarrow> bson \<Rightarrow> string \<Rightarrow> bson \<Rightarrow> mongo_error + doc list" where
  "UpdateOne_push_upsert up coll ident f item =
     (if \<not> up then Inl NetworkError else push_first coll ident f item)"

text \<open>
  The key of a document in the unique compound index on (ytID, key). \<open>Indexes().CreateOne\<close>
  builds the index unless it exists, and fails when two documents share a key.
  \<open>InsertOne\<close> fails with a duplicate-key error when the \<open>_id\<close> is taken or, with the
  index, when the key is taken.
\<close>

definition index_key :: "doc \<Rightarrow> bson \<times> bson" where
  "index_key d = (canon (field_or_null d ''ytID''), canon (field_or_null d ''key''))"

definition Indexes_CreateOne :: "store \<Rightarrow> mongo_error + store" where
  "Indexes_CreateOne db =
     (if \<not> online db then Inl NetworkError
      else if songs_index db then Inr db
      else if distinct (map index_key (songs db)) then Inr (db\<lparr>songs_index := True\<rparr>)
      else Inl DuplicateKeyError)"

definition InsertOne_song :: "store \<Rightarrow> doc \<Rightarrow> mongo_error + store" where
  "InsertOne_song db d =
     (if \<not> online db then Inl NetworkError
      else if list_ex (matches ''_id'' (field_or_null d ''_id'')) (songs db) then Inl DuplicateKeyError
      else if songs_index db \<and> index_key d \<in> set (map index_key (songs db)) then Inl DuplicateKeyError
      else Inr (db\<lparr>songs := songs db @ [d]\<rparr>))"

subsection \<open>StoreFingerprints\<close>

text \<open>
  The argument is a Go map from an address to one couple. The loop ranges over it in an
  order the run time chooses: the model takes the entries in that order, as a list whose
  addresses are distinct.
\<close>

definition couple_item :: "Couple \<Rightarrow> bson" where
  "couple_item couple =
     BDoc [(''anchorTimeMs'', bson_uint32 (AnchorTimeMs couple)),
           (''songID'', bson_uint32 (SongID couple))]"

fun StoreFingerprints :: "store \<Rightarrow> (32 word \<times> Couple) list \<Rightarrow> error option \<times> store" where
  "StoreFingerprints db [] = (None, db)"
| "StoreFingerprints db ((address, couple) # rest) =
     (case UpdateOne_push_upsert (online db) (fingerprints db) (bson_uint32 address)
             ''couples'' (couple_item couple) of
        Inl err \<Rightarrow> (Some StoreError, db)
      | Inr coll \<Rightarrow> StoreFingerprints (db\<lparr>fingerprints := coll\<rparr>) rest)"

subsection \<open>GetCouples\<close>

text \<open>
  The inner loop over the items of the array. The assertion \<open>item.(primitive.M)\<close> is
  checked; the assertions \<open>itemMap["anchorTimeMs"].(int64)\<close> and
  \<open>itemMap["songID"].(int64)\<close> are not, and panic on any other value. \<open>uint32(...)\<close> of
  an \<open>int64\<close> keeps the low 32 bits.
\<close>

fun couples_loop :: "32 word \<Rightarrow> bson list \<Rightarrow> Couple list \<Rightarrow> error + Couple list" where
  "couples_loop address [] docCouples = Inr docCouples"
| "couples_loop address (item # rest) docCouples =
     (case item of
        BDoc itemMap \<Rightarrow>
          (case map_of itemMap ''anchorTimeMs'' of
             Some (BInt64 t) \<Rightarrow>
               (case map_of itemMap ''songID'' of
                  Some (BInt64 s) \<Rightarrow>
                    couples_loop address rest
                      (docCouples @ [\<lparr>AnchorTimeMs = word_of_int t, SongID = word_of_int s\<rparr>])
                | _ \<Rightarrow> Inl GoPanic)
           | _ \<Rightarrow> Inl GoPanic)
      | _ \<Rightarrow> Inl (CorruptRecord address))"

fun GetCouples_loop ::
  "store \<Rightarrow> 32 word list \<Rightarrow> (32 word \<rightharpoonup> Couple list) \<Rightarrow> error + (32 word \<rightharpoonup> Couple list)" where
  "GetCouples_loop db [] couples = Inr couples"
| "GetCouples_loop db (address # rest) couples =
     (case FindOne (online db) (fingerprints db) ''_id'' (bson_uint32 address) of
        Inl err \<Rightarrow>
          if err = ErrNoDocuments then GetCouples_loop db rest couples else Inl StoreError
      | Inr result \<Rightarrow>
          (case map_of result ''couples'' of
             Some (BArray couplesList) \<Rightarrow>
               (case couples_loop address couplesList [] of
                  Inl err \<Rightarrow> Inl err
                | Inr docCouples \<Rightarrow> GetCouples_loop db rest (couples(address \<mapsto> docCouples)))
           | _ \<Rightarrow> Inl (CorruptRecord address)))"

definition GetCouples :: "store \<Rightarrow> 32 word list \<Rightarrow> error + (32 word \<rightharpoonup> Couple list)" where
  "GetCouples db addresses = GetCouples_loop db addresses Map.empty"

subsection \<open>Strings\<close>

text \<open>
  \<open>strings.Index\<close> is the offset of the first occurrence, \<open>strings.Contains\<close> asks whether
  there is one, and \<open>strings.Split\<close> cuts at every occurrence, from the left and without
  overlap. (With an empty separator Go cuts after every UTF-8 sequence, the model after
  every byte; the code only splits on "---".)
\<close>

fun strings_Index :: "string \<Rightarrow> string \<Rightarrow> nat option" where
  "strings_Index [] substr = (if substr = [] then Some 0 else None)"
| "strings_Index (c # cs) substr =
     (if prefix substr (c # cs) then Some 0 else map_option Suc (strings_Index cs substr))"

definition strings_Contains :: "string \<Rightarrow> string \<Rightarrow> bool" where
  "strings_Contains s substr = (strings_Index s substr \<noteq> None)"

lemma strings_Index_bound:
  "strings_Index s sep = Some i \<Longrightarrow> i + length sep \<le> length s"
proof (induction s arbitrary: i)
  case Nil
  then show ?case by (simp split: if_splits)
next
  case (Cons c cs)
  show ?case
  proof (cases "prefix sep (c # cs)")
    case True
    with Cons.prems show ?thesis by (auto dest: prefix_length_le)
  next
    case False
    with Cons.prems obtain j where "strings_Index cs sep = Some j" "i = Suc j" by auto
    with Cons.IH show ?thesis by auto
  qed
qed

function strings_Split :: "string \<Rightarrow> string \<Rightarrow> string list" where
  "strings_Split s sep =
     (if sep = [] then map (\<lambda>c. [c]) s
      else case strings_Index s sep of
             None \<Rightarrow> [s]
           | Some i \<Rightarrow> take i s # strings_Split (drop (i + length sep) s) sep)"
  by pat_completeness auto
termination
proof (relation "measure (\<lambda>(s, sep). length s)")
  show "wf (measure (\<lambda>(s, sep). length s))" by simp
next
  fix s sep :: string and i
  assume "sep \<noteq> []" "strings_Index s sep = Some i"
  then show "((drop (i + length sep) s, sep), (s, sep)) \<in> measure (\<lambda>(s, sep). length s)"
    using strings_Index_bound [of s sep i] by (cases sep) auto
qed

declare strings_Split.simps [simp del]

subsection \<open>RegisterSong\<close>

text \<open>
  Modelled from the spec: \<open>GenerateSongKey\<close> is not under src/. The spec derives
  \<open>identityKey = title + separator + artist\<close>; the separator is the "---" on which
  \<open>GetSong\<close> splits the key.
\<close>

definition GenerateSongKey :: "string \<Rightarrow> string \<Rightarrow> string" where
  "GenerateSongKey songTitle songArtist = songTitle @ ''---'' @ songArtist"

text \<open>
  Modelled from the spec: \<open>GenerateUniqueID\<close> is not under src/. It takes no argument and
  returns a \<open>uint32\<close>; the spec says that it "generates a new unique songID
  (collision-free across the registry's lifetime)". The identifier it returns in a call of
  \<open>RegisterSong\<close> is the argument \<open>newID\<close> of the model, and the spec's guarantee is the
  predicate \<open>GenerateUniqueID_fresh\<close>: no song of the registry has that identifier.
\<close>

definition GenerateUniqueID_fresh :: "store \<Rightarrow> 32 word \<Rightarrow> bool" where
  "GenerateUniqueID_fresh db newID = (\<not> list_ex (matches ''_id'' (bson_uint32 newID)) (songs db))"

definition RegisterSong ::
  "store \<Rightarrow> 32 word \<Rightarrow> string \<Rightarrow> string \<Rightarrow> string \<Rightarrow> (error + 32 word) \<times> store" where
  "RegisterSong db newID songTitle songArtist ytID =
     (case Indexes_CreateOne db of
        Inl err \<Rightarrow> (Inl RegistryError, db)
      | Inr db1 \<Rightarrow>
          let songID = newID;
              key = GenerateSongKey songTitle songArtist
          in (case InsertOne_song db1
                     [(''_id'', bson_uint32 songID), (''key'', BString key), (''ytID'', BString ytID)] of
                Inl err \<Rightarrow>
                  if err = DuplicateKeyError then (Inl DuplicateSong, db1)
                  else (Inl RegistryError, db1)
              | Inr db2 \<Rightarrow> (Inr songID, db2)))"

subsection \<open>GetSong\<close>

record Song =
  Title :: string
  Artist :: string
  YouTubeID :: string

definition FILTER_KEYS :: string where
  "FILTER_KEYS = ''_id | ytID | key''"

text \<open>
  The three results \<open>(s, songExists, e)\<close> are \<open>Inr (Some s)\<close>, \<open>Inr None\<close> (no document)
  and \<open>Inl e\<close>. The assertions \<open>.(string)\<close> and the indices \<open>[0]\<close> and \<open>[1]\<close> of the split
  key are unchecked and panic.
\<close>

definition GetSong :: "store \<Rightarrow> string \<Rightarrow> bson \<Rightarrow> error + Song option" where
  "GetSong db filterKey v =
     (if \<not> strings_Contains FILTER_KEYS filterKey then Inl InvalidFilter
      else
        case FindOne (online db) (songs db) filterKey v of
          Inl err \<Rightarrow> if err = ErrNoDocuments then Inr None else Inl RegistryError
        | Inr song \<Rightarrow>
            (case map_of song ''ytID'' of
               Some (BString ytID) \<Rightarrow>
                 (case map_of song ''key'' of
                    Some (BString key) \<Rightarrow>
                      let parts = strings_Split key ''---'' in
                      if length parts < 2 then Inl GoPanic
                      else Inr (Some \<lparr>Title = parts ! 0, Artist = parts ! 1, YouTubeID = ytID\<rparr>)
                  | _ \<Rightarrow> Inl GoPanic)
             | _ \<Rightarrow> Inl GoPanic))"

definition GetSongByID :: "store \<Rightarrow> 32 word \<Rightarrow> error + Song option" where
  "GetSongByID db songID = GetSong db ''_id'' (bson_uint32 songID)"

definition GetSongByYTID :: "store \<Rightarrow> string \<Rightarrow> error + Song option" where
  "GetSongByYTID db ytID = GetSong db ''ytID'' (BString ytID)"

definition GetSongByKey :: "store \<Rightarrow> string \<Rightarrow> error + Song option" where
  "GetSongByKey db key = GetSong db ''key'' (BString key)"

subsection \<open>Invariant and stores for the statements\<close>

text \<open>
  The invariant of the registry: no two songs share the pair (ytID, key), and no two songs
  share the identifier. \<open>song_doc\<close> is the document that \<open>RegisterSong\<close> inserts.
\<close>

definition registry_inv :: "store \<Rightarrow> bool" where
  "registry_inv db =
     (distinct (map index_key (songs db))
      \<and> distinct (map (\<lambda>d. canon (field_or_null d ''_id'')) (songs db)))"

definition song_doc :: "32 word \<Rightarrow> string \<Rightarrow> string \<Rightarrow> doc" where
  "song_doc songID key ytID =
     [(''_id'', bson_uint32 songID), (''key'', BString key), (''ytID'', BString ytID)]"

text \<open>The empty store.\<close>

definition store0 :: store where
  "store0 = \<lparr>online = True, fingerprints = [], songs = [], songs_index = False\<rparr>"

text \<open>A registry holding the song "Song" by "Band" with the external reference "yt1".\<close>

definition store1 :: store where
  "store1 = store0\<lparr>songs := [song_doc 42 ''Song---Band'' ''yt1''], songs_index := True\<rparr>"

text \<open>A fingerprint collection whose only bucket, at address 5, holds the one item given.\<close>

definition corrupt_store :: "bson \<Rightarrow> store" where
  "corrupt_store item =
     store0\<lparr>fingerprints := [ [(''_id'', BInt64 5), (''couples'', BArray [item])] ]\<rparr>"

text \<open>
  Following the spec's words: the recovery of title and artist "by splitting on the first
  occurrence of the separator" (\<open>None\<close> when the key holds no separator). It is the
  reference against which \<open>GetSong\<close>, which uses \<open>strings.Split\<close>, is compared.
\<close>

definition split_on_first_occurrence :: "string \<Rightarrow> string \<Rightarrow> (string \<times> string) option" where
  "split_on_first_occurrence key sep =
     (case strings_Index key sep of
        None \<Rightarrow> None
      | Some i \<Rightarrow> Some (take i key, drop (i + length sep) key))"

text \<open>
  Titles that the key keeps apart from the artist: the title holds no "---" and does not
  end in "-".
\<close>

definition title_separable :: "string \<Rightarrow> bool" where
  "title_separable songTitle =
     (\<not> strings_Contains songTitle ''---''
      \<and> (songTitle = [] \<or> last songTitle \<noteq> CHR ''-''))"

text \<open>
  What one address holds: \<open>bucket_of\<close> is the body of the loop of \<open>GetCouples\<close> for one
  address (\<open>None\<close>: no document), \<open>bucket_map\<close> the map that \<open>GetCouples\<close> returns for
  it, and \<open>couples_of\<close> the couples of a bucket, none when it is absent.
\<close>

definition bucket_of :: "store \<Rightarrow> 32 word \<Rightarrow> error + Couple list option" where
  "bucket_of db a =
     (if \<not> online db then Inl StoreError
      else case find (matches ''_id'' (bson_uint32 a)) (fingerprints db) of
             None \<Rightarrow> Inr None
           | Some d \<Rightarrow>
               (case map_of d ''couples'' of
                  Some (BArray l) \<Rightarrow> map_sum id Some (couples_loop a l [])
                | _ \<Rightarrow> Inl (CorruptRecord a)))"

definition bucket_map :: "32 word \<Rightarrow> Couple list option \<Rightarrow> (32 word \<rightharpoonup> Couple list)" where
  "bucket_map a b = (case b of None \<Rightarrow> Map.empty | Some cs \<Rightarrow> [a \<mapsto> cs])"

definition couples_of :: "'a list option \<Rightarrow> 'a list" where
  "couples_of b = (case b of None \<Rightarrow> [] | Some cs \<Rightarrow> cs)"

text \<open>Two couples of song 1.\<close>

definition couple_a :: Couple where
  "couple_a = \<lparr>AnchorTimeMs = 100, SongID = 1\<rparr>"

definition couple_b :: Couple where
  "couple_b = \<lparr>AnchorTimeMs = 200, SongID = 1\<rparr>"

section \<open>Properties of WavBytesToSamples\<close>

lemma go_slice_pair:
  "i + 2 \<le> length xs \<Longrightarrow> go_slice xs i (i + 2) = [xs ! i, xs ! (i + 1)]"
proof -
  assume a: "i + 2 \<le> length xs"
  then have "drop i xs = xs ! i # xs ! (i + 1) # drop (i + 2) xs"
    by (simp add: Cons_nth_drop_Suc)
  then show ?thesis by (simp add: go_slice_def)
qed

lemma uint_ucast_byte: "uint (ucast (b :: byte) :: 16 word) = uint b"
  by (simp add: uint_up_ucast is_up)

lemma uint_byte_lt: "uint (b :: byte) < 256"
  using uint_bounded [of b] by simp

lemma uint_shift_byte: "uint (push_bit 8 (ucast (b :: byte)) :: 16 word) = 256 * uint b"
proof -
  have "uint (push_bit 8 (ucast b) :: 16 word) = (256 * uint (ucast b :: 16 word)) mod 65536"
    by (simp add: push_bit_eq_mult uint_word_ariths mult.commute)
  then show ?thesis using uint_byte_lt [of b] uint_ge_0 [of b] by (simp add: uint_ucast_byte)
qed

lemma Uint16_plus: "Uint16 [lo, hi] = ucast lo + push_bit 8 (ucast hi)"
  unfolding Uint16_def
  apply simp
  apply (rule disjunctive_add [symmetric])
  apply (auto simp: bit_simps dest: bit_imp_le_length)
  done

lemma Uint16_value: "uint (Uint16 [lo, hi]) = uint lo + 256 * uint hi"
proof -
  have "uint (Uint16 [lo, hi]) = (uint lo + 256 * uint hi) mod 65536"
    by (simp add: Uint16_plus uint_word_ariths uint_ucast_byte uint_shift_byte)
  then show ?thesis
    using uint_byte_lt [of lo] uint_byte_lt [of hi] uint_ge_0 [of lo] uint_ge_0 [of hi]
    by simp
qed

lemma signed_take_bit_15:
  "0 \<le> (u :: int) \<Longrightarrow> u < 65536 \<Longrightarrow>
   signed_take_bit 15 u = (if u < 32768 then u else u - 65536)"
proof (cases "u < 32768")
  case True
  assume "0 \<le> u" "u < 65536"
  with True show ?thesis
    by (simp add: signed_take_bit_eq_take_bit_shift take_bit_eq_mod)
next
  case False
  assume a: "0 \<le> u" "u < 65536"
  have e: "u + 32768 = (u - 32768) + 65536" by arith
  have "(u + 32768) mod 65536 = (u - 32768) mod 65536"
    by (subst e) (rule mod_add_self2)
  also have "\<dots> = u - 32768" using False a by simp
  finally show ?thesis using False
    by (simp add: signed_take_bit_eq_take_bit_shift take_bit_eq_mod)
qed

lemma sint_Uint16: "sint (Uint16 [lo, hi]) = int16_le lo hi"
proof -
  have "sint (Uint16 [lo, hi]) = signed_take_bit 15 (uint (Uint16 [lo, hi]))"
    by (simp add: sint_uint)
  also have "\<dots> = int16_le lo hi"
    using uint_byte_lt [of lo] uint_byte_lt [of hi] uint_ge_0 [of lo] uint_ge_0 [of hi]
    unfolding Uint16_value int16_le_def Let_def
    by (subst signed_take_bit_15) auto
  finally show ?thesis .
qed

lemma int16_le_bounds: "- 32768 \<le> int16_le lo hi \<and> int16_le lo hi \<le> 32767"
proof -
  have "- 32768 \<le> (if a + 256 * b < 32768 then a + 256 * b else a + 256 * b - 65536)
        \<and> (if a + 256 * b < 32768 then a + 256 * b else a + 256 * b - 65536) \<le> 32767"
    if "0 \<le> a" "a < 256" "0 \<le> b" "b < 256" for a b :: int
    using that by auto
  from this [of "uint lo" "uint hi"] show ?thesis
    using uint_byte_lt [of lo] uint_byte_lt [of hi]
    by (simp add: int16_le_def Let_def)
qed

lemma signed_Uint16_real: "(signed (Uint16 [lo, hi]) :: real) = real_of_int (int16_le lo hi)"
proof -
  have "real_of_int (sint (Uint16 [lo, hi])) = real_of_int (int16_le lo hi)"
    by (simp only: sint_Uint16)
  then show ?thesis by simp
qed

lemma samples_loop_inv:
  "length input = 2 * n \<Longrightarrow> length out = n \<Longrightarrow> k \<le> n \<Longrightarrow>
   samples_loop input (2 * k) out = Inr (take k out @ map (sample_at input) [k..<n])"
proof (induction "n - k" arbitrary: k out)
  case 0
  then show ?case by (simp add: samples_loop.simps)
next
  case (Suc d)
  then have k: "k < n" by simp
  have step: "samples_loop input (2 * k) out =
     samples_loop input (2 * Suc k) (out[k := sample_at input k])"
    using Suc.prems k
    by (subst samples_loop.simps)
       (simp add: go_slice_pair [of "2 * k" input, simplified] sample_at_def signed_Uint16_real Let_def)
  have "samples_loop input (2 * Suc k) (out[k := sample_at input k]) =
     Inr (take (Suc k) (out[k := sample_at input k]) @ map (sample_at input) [Suc k..<n])"
    using Suc.prems Suc.hyps k by (intro Suc.hyps(1)) auto
  also have "take (Suc k) (out[k := sample_at input k]) = take k out @ [sample_at input k]"
    using Suc.prems k by (simp add: take_Suc_conv_app_nth)
  finally show ?case using step k by (simp add: upt_conv_Cons)
qed

lemma WavBytesToSamples_even:
  "even (length input) \<Longrightarrow>
   WavBytesToSamples input = Inr (map (sample_at input) [0..<length input div 2])"
proof -
  assume e: "even (length input)"
  then have l: "length input = 2 * (length input div 2)" by simp
  have "samples_loop input (2 * 0) (replicate (length input div 2) 0) =
        Inr (take 0 (replicate (length input div 2) 0)
             @ map (sample_at input) [0..<length input div 2])"
    by (rule samples_loop_inv [OF l]) simp_all
  then show ?thesis using e by (simp add: WavBytesToSamples_def)
qed

lemma WavBytesToSamples_odd:
  "odd (length input) \<Longrightarrow> WavBytesToSamples input = Inl MisalignedData"
  by (simp add: WavBytesToSamples_def odd_iff_mod_2_eq_one)

text \<open>
  Claim C6. WavBytesToSamples maps the 16-bit little-endian signed sample \<open>s\<close> at each
  even offset to \<open>s / 32768\<close>; the byte pair 0x00,0x80 gives exactly \<open>-1\<close>, the byte pair
  0xFF,0x7F gives exactly \<open>32767 / 32768\<close>; an input of odd length fails with the error
  for misaligned data.
\<close>

theorem WavBytesToSamples_scaling:
  "(even (length input) \<longrightarrow>
      WavBytesToSamples input =
        Inr (map (\<lambda>k. real_of_int (int16_le (input ! (2 * k)) (input ! (2 * k + 1))) / 32768)
                 [0..<length input div 2]))
   \<and> WavBytesToSamples [0x00, 0x80] = Inr [- 1]
   \<and> WavBytesToSamples [0xFF, 0x7F] = Inr [32767 / 32768]
   \<and> (odd (length input) \<longrightarrow> WavBytesToSamples input = Inl MisalignedData)"
proof -
  have a: "even (length input) \<longrightarrow>
      WavBytesToSamples input =
        Inr (map (\<lambda>k. real_of_int (int16_le (input ! (2 * k)) (input ! (2 * k + 1))) / 32768)
                 [0..<length input div 2])"
    using WavBytesToSamples_even [of input] by (simp add: sample_at_def [abs_def])
  have b: "WavBytesToSamples [0x00, 0x80] = Inr [- 1]"
    by (simp add: WavBytesToSamples_even sample_at_def int16_le_def)
  have c: "WavBytesToSamples [0xFF, 0x7F] = Inr [32767 / 32768]"
    by (simp add: WavBytesToSamples_even sample_at_def int16_le_def)
  from a b c WavBytesToSamples_odd [of input] show ?thesis by blast
qed

theorem WavBytesToSamples_scaling_witness:
  "even (length [0x34, 0x12, 0x00, 0x80 :: byte])
   \<and> WavBytesToSamples [0x34, 0x12, 0x00, 0x80] = Inr [4660 / 32768, - 1]
   \<and> odd (length [0x01 :: byte])
   \<and> WavBytesToSamples [0x01] = Inl MisalignedData"
  using WavBytesToSamples_scaling [of "[0x34, 0x12, 0x00, 0x80]"]
        WavBytesToSamples_scaling [of "[0x01]"]
  by (simp add: int16_le_def upt_rec)

text \<open>
  Claim C10. On an input of even length WavBytesToSamples succeeds, returns one sample for
  every two bytes, and every sample lies between \<open>-1\<close> and \<open>32767 / 32768\<close>.
\<close>

theorem WavBytesToSamples_range:
  assumes "even (length input)"
  shows "\<exists>out. WavBytesToSamples input = Inr out
           \<and> length out = length input div 2
           \<and> (\<forall>x \<in> set out. - 1 \<le> x \<and> x \<le> 32767 / 32768)"
proof -
  have r: "- 1 \<le> sample_at input k \<and> sample_at input k \<le> 32767 / 32768" for k
  proof -
    have "- 32768 \<le> real_of_int (int16_le (input ! (2 * k)) (input ! (2 * k + 1)))
          \<and> real_of_int (int16_le (input ! (2 * k)) (input ! (2 * k + 1))) \<le> 32767"
      using int16_le_bounds [of "input ! (2 * k)" "input ! (2 * k + 1)"]
      by (metis of_int_le_iff of_int_minus of_int_numeral)
    then show ?thesis by (simp add: sample_at_def)
  qed
  show ?thesis
    using WavBytesToSamples_even [OF assms] r by auto
qed

theorem WavBytesToSamples_range_witness:
  "even (length [0x00, 0x80, 0xFF, 0x7F :: byte])
   \<and> (\<exists>out. WavBytesToSamples [0x00, 0x80, 0xFF, 0x7F] = Inr out
           \<and> length out = 2
           \<and> list_all (\<lambda>x. - 1 \<le> x \<and> x \<le> 32767 / 32768) out)"
proof -
  have e: "even (length [0x00, 0x80, 0xFF, 0x7F :: byte])" by simp
  from WavBytesToSamples_range [OF e] obtain out where
    o: "WavBytesToSamples [0x00, 0x80, 0xFF, 0x7F] = Inr out"
       "length out = length [0x00, 0x80, 0xFF, 0x7F :: byte] div 2"
       "\<forall>x \<in> set out. - 1 \<le> x \<and> x \<le> 32767 / 32768"
    by blast
  from o(2) have "length out = 2" by simp
  with e o(1) o(3) show ?thesis by (auto simp: list_all_iff)
qed

section \<open>Properties of WriteWavFile and ReadWavInfo\<close>

lemma Uint16_Put: "Uint16 [ucast v, ucast (drop_bit 8 v)] = (v :: 16 word)"
  unfolding Uint16_def
  by (rule bit_word_eqI) (auto simp: bit_simps)

lemma Uint32_Put:
  "Uint32 [ucast v, ucast (drop_bit 8 v), ucast (drop_bit 16 v), ucast (drop_bit 24 v)]
     = (v :: 32 word)"
  unfolding Uint32_def
  apply (rule bit_word_eqI)
  apply (auto simp: bit_simps)
  subgoal for n by (cases "24 \<le> n") auto
  done

lemma go_rem_pos: "0 \<le> a \<Longrightarrow> 0 < b \<Longrightarrow> go_rem a b = a mod b"
  by (cases "a = 0") (simp_all add: go_rem_def go_quo_def minus_mult_div_eq_mod)

lemma length_binary_Write:
  "4 \<le> length (ChunkID h) \<Longrightarrow> 4 \<le> length (Format h) \<Longrightarrow> 4 \<le> length (Subchunk1ID h) \<Longrightarrow>
   4 \<le> length (Subchunk2ID h) \<Longrightarrow> length (binary_Write h) = 44"
  by (simp add: binary_Write_def PutUint16_def PutUint32_def)

lemma list4: "length xs = 4 \<Longrightarrow> \<exists>a b c d. xs = [a, b, c, d]"
  by (cases xs; simp; cases "tl xs"; simp; cases "tl (tl xs)"; simp; cases "tl (tl (tl xs))"; simp)

lemma binary_Read_Write:
  assumes "length (ChunkID h) = 4" "length (Format h) = 4" "length (Subchunk1ID h) = 4"
          "length (Subchunk2ID h) = 4"
  shows "binary_Read (binary_Write h) = Inr h"
proof -
  from assms obtain a0 a1 a2 a3 b0 b1 b2 b3 c0 c1 c2 c3 d0 d1 d2 d3 where
    "ChunkID h = [a0, a1, a2, a3]" "Format h = [b0, b1, b2, b3]"
    "Subchunk1ID h = [c0, c1, c2, c3]" "Subchunk2ID h = [d0, d1, d2, d3]"
    by (metis list4)
  then show ?thesis
    by (simp add: binary_Read_def binary_Write_def PutUint16_def PutUint32_def go_slice_def
          Uint16_Put Uint32_Put)
qed

lemma length_wav_header: "length (binary_Write (wav_header_of d s c b)) = 44"
  by (rule length_binary_Write) (simp_all add: wav_header_of_def ascii_def)

lemma file_Write_fits:
  "length bs \<le> space fs \<Longrightarrow>
   file_Write fs name bs =
     (None, fs\<lparr>files := (files fs)(name \<mapsto> (case files fs name of None \<Rightarrow> [] | Some d \<Rightarrow> d) @ bs),
              space := space fs - length bs\<rparr>)"
  by (simp add: file_Write_def Let_def min_def)

lemma WriteWavFile_ok:
  assumes "0 < channels" "0 < sampleRate" "0 < bitsPerSample"
      and "int (length data) mod channels = 0"
      and "\<not> denied fs filename" "44 + length data \<le> space fs"
  shows "WriteWavFile fs filename data sampleRate channels bitsPerSample =
          (None, fs\<lparr>files := (files fs)(filename \<mapsto>
                     binary_Write (wav_header_of data sampleRate channels bitsPerSample) @ data),
                   space := space fs - 44 - length data\<rparr>)"
proof -
  let ?h = "wav_header_of data sampleRate channels bitsPerSample"
  let ?fs1 = "fs\<lparr>files := (files fs)(filename \<mapsto> [])\<rparr>"
  have c: "os_Create fs filename = Inr ?fs1" using assms(5) by (simp add: os_Create_def)
  have r: "go_rem (int (length data)) channels = 0"
    using assms(1,4) by (simp add: go_rem_pos)
  have w: "writeWavHeader ?fs1 filename data sampleRate channels bitsPerSample =
             file_Write ?fs1 filename (binary_Write ?h)"
    using assms(1) r by (simp add: writeWavHeader_def wav_header_of_def Let_def)
  have w1: "file_Write ?fs1 filename (binary_Write ?h) =
     (None, fs\<lparr>files := (files fs)(filename \<mapsto> binary_Write ?h), space := space fs - 44\<rparr>)"
    using assms(6) by (subst file_Write_fits) (simp_all add: length_wav_header)
  have w2: "file_Write (fs\<lparr>files := (files fs)(filename \<mapsto> binary_Write ?h), space := space fs - 44\<rparr>)
              filename data =
     (None, fs\<lparr>files := (files fs)(filename \<mapsto> binary_Write ?h @ data),
              space := space fs - 44 - length data\<rparr>)"
    using assms(6) by (subst file_Write_fits) simp_all
  show ?thesis
    using assms(1,2,3) by (simp add: WriteWavFile_def c w w1 w2)
qed

lemma ReadWavInfo_written:
  assumes "files fs filename = Some (binary_Write h @ data)"
      and "length (ChunkID h) = 4" "length (Format h) = 4" "length (Subchunk1ID h) = 4"
          "length (Subchunk2ID h) = 4"
  shows "ReadWavInfo fs filename =
     (if ChunkID h \<noteq> ascii ''RIFF'' \<or> Format h \<noteq> ascii ''WAVE'' \<or> AudioFormat h \<noteq> 1
      then Inl InvalidHeaderFormat
      else if BitsPerSample h = 16
      then Inr \<lparr>Channels = uint (NumChannels h), SampleRate_info = uint (SampleRate h),
               Data = data,
               Duration = F64Div (length data) (uint (NumChannels h) * 2 * uint (SampleRate h))\<rparr>
      else Inl UnsupportedBitDepth)"
proof -
  have l: "length (binary_Write h) = 44" using assms(2-5) by (simp add: length_binary_Write)
  then have s: "go_slice (binary_Write h @ data) 0 44 = binary_Write h"
    by (simp add: go_slice_def)
  have d: "drop 44 (binary_Write h @ data) = data" using l by simp
  show ?thesis
    using assms(2-5) l
    by (simp add: ReadWavInfo_def ioutil_ReadFile_def assms(1) s d binary_Read_Write Let_def)
qed

text \<open>
  Claim C1, amended. For a payload whose length is divisible by the channel count, a
  channel count from 1 to 65535, a sample rate from 1 to \<open>2^32 - 1\<close> and 16 bits per
  sample, when the file can be created and the 44 + length bytes fit, WriteWavFile succeeds
  and ReadWavInfo on the file it wrote returns the same channel count, the same sample
  rate and the payload itself.
\<close>

theorem WriteWavFile_ReadWavInfo_roundtrip:
  assumes "0 < channelCount" "channelCount < 65536"
      and "0 < sampleRateHz" "sampleRateHz < 4294967296"
      and "int (length payload) mod channelCount = 0"
      and "\<not> denied fs filename" "44 + length payload \<le> space fs"
  shows "\<exists>fs' info.
           WriteWavFile fs filename payload sampleRateHz channelCount 16 = (None, fs')
           \<and> ReadWavInfo fs' filename = Inr info
           \<and> Channels info = channelCount
           \<and> SampleRate_info info = sampleRateHz
           \<and> Data info = payload"
proof -
  let ?h = "wav_header_of payload sampleRateHz channelCount 16"
  let ?fs' = "fs\<lparr>files := (files fs)(filename \<mapsto> binary_Write ?h @ payload),
                 space := space fs - 44 - length payload\<rparr>"
  have w: "WriteWavFile fs filename payload sampleRateHz channelCount 16 = (None, ?fs')"
    using assms by (intro WriteWavFile_ok) simp_all
  have f: "files ?fs' filename = Some (binary_Write ?h @ payload)" by simp
  have c: "uint (word_of_int channelCount :: 16 word) = channelCount"
    using assms(1,2) by (simp add: uint_word_of_int take_bit_eq_mod)
  have s: "uint (word_of_int sampleRateHz :: 32 word) = sampleRateHz"
    using assms(3,4) by (simp add: uint_word_of_int take_bit_eq_mod)
  have "ReadWavInfo ?fs' filename =
     Inr \<lparr>Channels = channelCount, SampleRate_info = sampleRateHz, Data = payload,
          Duration = F64Div (length payload) (channelCount * 2 * sampleRateHz)\<rparr>"
    by (subst ReadWavInfo_written [OF f]) (simp_all add: wav_header_of_def ascii_def c s)
  with w show ?thesis by simp
qed

text \<open>
  The round trip at a stereo payload of four bytes.
\<close>

theorem WriteWavFile_ReadWavInfo_roundtrip_witness:
  "\<exists>fs' info.
     WriteWavFile fs0 ''a.wav'' [1, 2, 3, 4] 44100 2 16 = (None, fs')
     \<and> ReadWavInfo fs' ''a.wav'' = Inr info
     \<and> Channels info = 2 \<and> SampleRate_info info = 44100 \<and> Data info = [1, 2, 3, 4]"
  using WriteWavFile_ReadWavInfo_roundtrip [of 2 44100 "[1, 2, 3, 4]" fs0 "''a.wav''"]
  by (simp add: fs0_def)

text \<open>
  Claim C1 as stated fails: the header keeps the channel count in 16 bits, so a channel count
  of 65536 (with the empty payload, whose length it divides) is written as 0 and read
  back as 0.
\<close>

theorem roundtrip_channels_counterexample:
  "(0 :: int) < 65536 \<and> (0 :: int) < 44100 \<and> int (length ([] :: byte list)) mod 65536 = 0
   \<and> fst (WriteWavFile fs0 ''a.wav'' [] 44100 65536 16) = None
   \<and> map_sum id Channels (ReadWavInfo (snd (WriteWavFile fs0 ''a.wav'' [] 44100 65536 16)) ''a.wav'')
       = Inr 0"
proof -
  have w: "WriteWavFile fs0 ''a.wav'' [] 44100 65536 16 =
     (None, fs0\<lparr>files := (files fs0)(''a.wav'' \<mapsto> binary_Write (wav_header_of [] 44100 65536 16) @ []),
               space := space fs0 - 44 - length ([] :: byte list)\<rparr>)"
    by (rule WriteWavFile_ok) (simp_all add: fs0_def)
  show ?thesis
    unfolding w
    by (subst ReadWavInfo_written [where h = "wav_header_of [] 44100 65536 16" and data = "[]"])
       (simp_all add: wav_header_of_def ascii_def)
qed

lemma header_slice:
  "44 \<le> length data \<Longrightarrow> hi \<le> 44 \<Longrightarrow> go_slice (go_slice data 0 44) lo hi = go_slice data lo hi"
  by (simp add: go_slice_def drop_take min_def)

lemma header_field16:
  assumes "44 \<le> length data" "off + 2 \<le> 44"
  shows "uint (Uint16 (go_slice (go_slice data 0 44) off (off + 2))) = field16 data off"
proof -
  have "go_slice data off (off + 2) = [data ! off, data ! (off + 1)]"
    using assms by (intro go_slice_pair) simp
  then show ?thesis
    using assms by (simp add: header_slice Uint16_value field16_def)
qed

lemma ReadWavInfo_header_ok:
  assumes "files fs filename = Some data" "44 \<le> length data"
      and "take 4 data = ascii ''RIFF''" "take 4 (drop 8 data) = ascii ''WAVE''"
      and "field16 data 20 = 1"
  shows "ReadWavInfo fs filename =
     (if field16 data 34 = 16
      then Inr \<lparr>Channels = field16 data 22,
               SampleRate_info = uint (Uint32 (go_slice data 24 28)),
               Data = drop 44 data,
               Duration = F64Div (length data - 44)
                  (field16 data 22 * 2 * uint (Uint32 (go_slice data 24 28)))\<rparr>
      else Inl UnsupportedBitDepth)"
proof -
  have l: "\<not> length (go_slice data 0 44) < 44" using assms(2) by (simp add: go_slice_def)
  have m: "go_slice (go_slice data 0 44) 0 4 = ascii ''RIFF''"
    using assms(2,3) by (simp add: header_slice) (simp add: go_slice_def)
  have f: "go_slice (go_slice data 0 44) 8 12 = ascii ''WAVE''"
    using assms(2,4) by (simp add: header_slice) (simp add: go_slice_def)
  have a: "Uint16 (go_slice (go_slice data 0 44) 20 22) = 1"
    using header_field16 [OF assms(2), of 20] assms(5) by (simp add: word_uint_eq_iff)
  have b: "(Uint16 (go_slice (go_slice data 0 44) 34 36) = 16) = (field16 data 34 = 16)"
    using header_field16 [OF assms(2), of 34] by (simp add: word_uint_eq_iff)
  have c: "uint (Uint16 (go_slice (go_slice data 0 44) 22 24)) = field16 data 22"
    using header_field16 [OF assms(2), of 22] by simp
  have s: "go_slice (go_slice data 0 44) 24 28 = go_slice data 24 28"
    using assms(2) by (simp add: header_slice)
  show ?thesis
    using assms(2)
    by (simp add: ReadWavInfo_def ioutil_ReadFile_def assms(1) binary_Read_def l m f a b c s Let_def)
qed

text \<open>
  Claim C5, amended. For an input of at least 44 bytes with the magic "RIFF", the format tag
  "WAVE" at offset 8 and format code 1 at offset 20: when the bits-per-sample field at
  offset 34 is 16, ReadWavInfo succeeds and its Data is everything after byte 44; for any
  other value of that field it fails with the error for an unsupported bit depth.
\<close>

theorem ReadWavInfo_pcm16:
  assumes "files fs filename = Some data" "44 \<le> length data"
      and "take 4 data = ascii ''RIFF''" "take 4 (drop 8 data) = ascii ''WAVE''"
      and "field16 data 20 = 1"
  shows "(field16 data 34 = 16 \<longrightarrow>
            (\<exists>info. ReadWavInfo fs filename = Inr info \<and> Data info = drop 44 data))
       \<and> (field16 data 34 \<noteq> 16 \<longrightarrow> ReadWavInfo fs filename = Inl UnsupportedBitDepth)"
  by (simp add: ReadWavInfo_header_ok [OF assms])

lemma pcm_header_facts:
  "length (pcm_header bits @ d) = 44 + length d"
  "take 4 (pcm_header bits @ d) = ascii ''RIFF''"
  "take 4 (drop 8 (pcm_header bits @ d)) = ascii ''WAVE''"
  "field16 (pcm_header bits @ d) 20 = 1"
  "field16 (pcm_header bits @ d) 34 = uint bits"
  "drop 44 (pcm_header bits @ d) = d"
  "length (pcm_header bits) = 44"
  "take 4 (pcm_header bits) = ascii ''RIFF''"
  "take 4 (drop 8 (pcm_header bits)) = ascii ''WAVE''"
  by (simp_all add: pcm_header_def ascii_def field16_def)

text \<open>
  Both cases at concrete files: 16 bits per sample, and 24 bits per sample.
\<close>

theorem ReadWavInfo_pcm16_witness:
  "(\<exists>info. ReadWavInfo (fs_with ''a.wav'' (pcm_header 16 @ [7, 9])) ''a.wav'' = Inr info
          \<and> Data info = [7, 9])
   \<and> ReadWavInfo (fs_with ''b.wav'' (pcm_header 24 @ [7, 9])) ''b.wav'' = Inl UnsupportedBitDepth"
  using ReadWavInfo_pcm16 [of "fs_with ''a.wav'' (pcm_header 16 @ [7, 9])" "''a.wav''"
          "pcm_header 16 @ [7, 9]"]
        ReadWavInfo_pcm16 [of "fs_with ''b.wav'' (pcm_header 24 @ [7, 9])" "''b.wav''"
          "pcm_header 24 @ [7, 9]"]
  by (simp add: pcm_header_facts fs_with_def)

text \<open>
  Claim C5 as stated fails: a well-formed header with 8 bits per sample is rejected.
\<close>

theorem ReadWavInfo_bits8_counterexample:
  "44 \<le> length (pcm_header 8 @ [7, 9])
   \<and> take 4 (pcm_header 8 @ [7, 9]) = ascii ''RIFF''
   \<and> take 4 (drop 8 (pcm_header 8 @ [7, 9])) = ascii ''WAVE''
   \<and> field16 (pcm_header 8 @ [7, 9]) 20 = 1
   \<and> ReadWavInfo (fs_with ''a.wav'' (pcm_header 8 @ [7, 9])) ''a.wav'' = Inl UnsupportedBitDepth"
proof -
  have "ReadWavInfo (fs_with ''a.wav'' (pcm_header 8 @ [7, 9])) ''a.wav'' = Inl UnsupportedBitDepth"
    by (subst ReadWavInfo_header_ok [where data = "pcm_header 8 @ [7, 9]"])
       (simp_all add: pcm_header_facts fs_with_def)
  then show ?thesis by (simp add: pcm_header_facts)
qed

text \<open>
  Claim C9, amended. When the channel count, the sample rate or the bits per sample is not
  positive, or the payload length is not divisible by the channel count, WriteWavFile fails.
  When the file cannot be created the error is the operating system's and nothing changes.
  Otherwise the error is InvalidParameters (a non-positive value) or MisalignedData, no
  byte of the header or of the payload is written and the free space is unchanged, but
  the file has been created, or truncated, and is left empty: \<open>os.Create\<close> runs before
  the checks.
\<close>

theorem WriteWavFile_rejects:
  assumes "channels \<le> 0 \<or> sampleRate \<le> 0 \<or> bitsPerSample \<le> 0
           \<or> int (length data) mod channels \<noteq> 0"
  shows "WriteWavFile fs filename data sampleRate channels bitsPerSample =
     (if denied fs filename then (Some IOError, fs)
      else (Some (if sampleRate \<le> 0 \<or> channels \<le> 0 \<or> bitsPerSample \<le> 0
                  then InvalidParameters else MisalignedData),
            fs\<lparr>files := (files fs)(filename \<mapsto> [])\<rparr>))"
proof (cases "sampleRate \<le> 0 \<or> channels \<le> 0 \<or> bitsPerSample \<le> 0")
  case True
  then show ?thesis by (auto simp: WriteWavFile_def os_Create_def)
next
  case False
  with assms have "go_rem (int (length data)) channels \<noteq> 0" "channels \<noteq> 0"
    by (auto simp: go_rem_pos)
  with False show ?thesis
    by (auto simp: WriteWavFile_def os_Create_def writeWavHeader_def)
qed

text \<open>
  A rejected call with sample rate 0: the new file exists and is empty.
\<close>

theorem WriteWavFile_rejects_witness:
  "WriteWavFile (fs_with ''old.wav'' [5]) ''new.wav'' [1, 2] 0 2 16 =
     (Some InvalidParameters,
      (fs_with ''old.wav'' [5])\<lparr>files := [''old.wav'' \<mapsto> [5], ''new.wav'' \<mapsto> []]\<rparr>)"
  using WriteWavFile_rejects [of 2 0 16 "[1, 2]" "fs_with ''old.wav'' [5]" "''new.wav''"]
  by (simp add: fs_with_def)

text \<open>
  Claim C9 as stated fails: a rejected call empties an existing file (here a payload of 3
  bytes for 2 channels), and creates a file that did not exist (here 0 channels).
\<close>

theorem WriteWavFile_truncates_counterexample:
  "int (length [1, 2, 3 :: byte]) mod 2 \<noteq> 0
   \<and> files (fs_with ''out.wav'' [9, 9, 9]) ''out.wav'' = Some [9, 9, 9]
   \<and> fst (WriteWavFile (fs_with ''out.wav'' [9, 9, 9]) ''out.wav'' [1, 2, 3] 44100 2 16)
       = Some MisalignedData
   \<and> files (snd (WriteWavFile (fs_with ''out.wav'' [9, 9, 9]) ''out.wav'' [1, 2, 3] 44100 2 16))
       ''out.wav'' = Some []
   \<and> files (fs_with ''old.wav'' [5]) ''new.wav'' = None
   \<and> fst (WriteWavFile (fs_with ''old.wav'' [5]) ''new.wav'' [1, 2] 44100 0 16)
       = Some InvalidParameters
   \<and> files (snd (WriteWavFile (fs_with ''old.wav'' [5]) ''new.wav'' [1, 2] 44100 0 16))
       ''new.wav'' = Some []"
  by (simp add: WriteWavFile_def os_Create_def writeWavHeader_def fs_with_def go_rem_def go_quo_def)

section \<open>Properties of the database client\<close>

text \<open>
  Claim C4 fails on the code. \<open>GetSong\<close> accepts a lookup field when it is a substring
  of the literal "_id | ytID | key": the field name "id" is none of the three allow-listed
  names, yet the lookup runs and reports that no song was found. A name that is no
  substring, such as "title", is rejected with InvalidFilter.
\<close>

theorem GetSong_substring_accepted:
  "''id'' \<noteq> ''_id'' \<and> ''id'' \<noteq> ''ytID'' \<and> ''id'' \<noteq> ''key''
   \<and> GetSong store1 ''id'' (bson_uint32 42) = Inr None
   \<and> GetSong store1 ''title'' (bson_uint32 42) = Inl InvalidFilter"
  by (simp add: GetSong_def strings_Contains_def FILTER_KEYS_def FindOne_def store1_def store0_def
        song_doc_def matches_def field_or_null_def canon_def bson_uint32_def)

text \<open>
  Claim C3 fails on the code. A bucket whose item is a document with a field of the wrong
  type, or without the field songID, makes \<open>GetCouples\<close> panic in the unchecked
  assertion \<open>.(int64)\<close>; a bucket whose item is no document at all is reported with
  CorruptRecord and the address, through the checked assertion beside it.
\<close>

theorem GetCouples_unchecked_assertion:
  "GetCouples (corrupt_store (BDoc [(''anchorTimeMs'', BString ''x''), (''songID'', BInt64 1)])) [5]
     = Inl GoPanic
   \<and> GetCouples (corrupt_store (BDoc [(''anchorTimeMs'', BInt64 3)])) [5] = Inl GoPanic
   \<and> GetCouples (corrupt_store (BString ''x'')) [5] = Inl (CorruptRecord 5)"
  by (simp add: GetCouples_def FindOne_def corrupt_store_def store0_def
        matches_def field_or_null_def canon_def bson_uint32_def)

lemma canon_simps [simp]:
  "canon (BString s) = BString s" "canon (BInt64 n) = BInt64 n" "canon (BInt32 n) = BInt64 n"
  "canon (bson_uint32 w) = BInt64 (uint w)"
  by (simp_all add: canon_def bson_uint32_def)

lemma song_doc_fields [simp]:
  "field_or_null (song_doc i k y) ''_id'' = bson_uint32 i"
  "index_key (song_doc i k y) = (BString y, BString k)"
  "map_of (song_doc i k y) ''ytID'' = Some (BString y)"
  "map_of (song_doc i k y) ''key'' = Some (BString k)"
  "matches ''_id'' (bson_uint32 j) (song_doc i k y) = (i = j)"
  by (auto simp: song_doc_def field_or_null_def index_key_def matches_def bson_uint32_def
        word_uint_eq_iff)

lemma fresh_iff:
  "GenerateUniqueID_fresh db newID =
     (BInt64 (uint newID) \<notin> set (map (\<lambda>d. canon (field_or_null d ''_id'')) (songs db)))"
  by (force simp: GenerateUniqueID_fresh_def list_ex_iff matches_def)

lemma RegisterSong_cases:
  assumes "online db" "registry_inv db"
  shows "RegisterSong db newID title artist ytID =
     (if list_ex (matches ''_id'' (bson_uint32 newID)) (songs db)
         \<or> (BString ytID, BString (GenerateSongKey title artist)) \<in> set (map index_key (songs db))
      then (Inl DuplicateSong, db\<lparr>songs_index := True\<rparr>)
      else (Inr newID,
            db\<lparr>songs_index := True,
               songs := songs db @ [song_doc newID (GenerateSongKey title artist) ytID]\<rparr>))"
proof -
  have i: "Indexes_CreateOne db = Inr (db\<lparr>songs_index := True\<rparr>)"
    using assms(1,2) by (cases db) (auto simp: Indexes_CreateOne_def registry_inv_def)
  show ?thesis
    using assms(1)
    by (simp add: RegisterSong_def i InsertOne_song_def Let_def song_doc_def [symmetric])
qed

lemma RegisterSong_result:
  assumes "online db" "registry_inv db" "GenerateUniqueID_fresh db newID"
  shows "RegisterSong db newID title artist ytID =
     (if (BString ytID, BString (GenerateSongKey title artist)) \<in> set (map index_key (songs db))
      then (Inl DuplicateSong, db\<lparr>songs_index := True\<rparr>)
      else (Inr newID,
            db\<lparr>songs_index := True,
               songs := songs db @ [song_doc newID (GenerateSongKey title artist) ytID]\<rparr>))"
  using assms(3) by (simp add: RegisterSong_cases [OF assms(1,2)] GenerateUniqueID_fresh_def)

lemma unmatched_identifier:
  assumes "\<not> list_ex (matches ''_id'' (bson_uint32 i)) ds"
  shows "list_all (\<lambda>d. \<not> matches ''_id'' (bson_uint32 i) d) ds"
    and "list_all (\<lambda>d. field_or_null d ''_id'' \<noteq> bson_uint32 i) ds"
    and "BInt64 (uint i) \<notin> set (map (\<lambda>d. canon (field_or_null d ''_id'')) ds)"
  using assms by (auto simp: list_ex_iff list_all_iff matches_def)

text \<open>
  Claim C7. On a reachable registry in which the pairs (ytID, key) and the identifiers are
  unique, whatever identifier GenerateUniqueID returns: when a record with the same ytID and
  the same key exists, RegisterSong fails with DuplicateSong and the songs are unchanged;
  whenever RegisterSong succeeds, the identifier it returns is that of no existing record
  (the insertion checks the unique \<open>_id\<close>); and the invariant holds afterwards. When no
  record has the pair and GenerateUniqueID returns the fresh identifier the spec requires
  of it, RegisterSong succeeds, returns that identifier and adds the record.
\<close>

theorem RegisterSong_unique:
  assumes "online db" "registry_inv db"
  shows "((BString ytID, BString (GenerateSongKey title artist)) \<in> set (map index_key (songs db)) \<longrightarrow>
            fst (RegisterSong db newID title artist ytID) = Inl DuplicateSong
            \<and> songs (snd (RegisterSong db newID title artist ytID)) = songs db)
       \<and> ((BString ytID, BString (GenerateSongKey title artist)) \<notin> set (map index_key (songs db))
            \<and> GenerateUniqueID_fresh db newID \<longrightarrow>
            fst (RegisterSong db newID title artist ytID) = Inr newID
            \<and> songs (snd (RegisterSong db newID title artist ytID)) =
                songs db @ [song_doc newID (GenerateSongKey title artist) ytID])
       \<and> (\<forall>songID. fst (RegisterSong db newID title artist ytID) = Inr songID \<longrightarrow>
            list_all (\<lambda>d. \<not> matches ''_id'' (bson_uint32 songID) d) (songs db)
            \<and> list_all (\<lambda>d. field_or_null d ''_id'' \<noteq> bson_uint32 songID) (songs db)
            \<and> songs (snd (RegisterSong db newID title artist ytID)) =
                songs db @ [song_doc songID (GenerateSongKey title artist) ytID])
       \<and> registry_inv (snd (RegisterSong db newID title artist ytID))"
proof -
  note c = RegisterSong_cases [OF assms, of newID title artist ytID]
  have p1: "(BString ytID, BString (GenerateSongKey title artist)) \<in> set (map index_key (songs db)) \<longrightarrow>
            fst (RegisterSong db newID title artist ytID) = Inl DuplicateSong
            \<and> songs (snd (RegisterSong db newID title artist ytID)) = songs db"
    by (simp add: c)
  have p2: "(BString ytID, BString (GenerateSongKey title artist)) \<notin> set (map index_key (songs db))
            \<and> GenerateUniqueID_fresh db newID \<longrightarrow>
            fst (RegisterSong db newID title artist ytID) = Inr newID
            \<and> songs (snd (RegisterSong db newID title artist ytID)) =
                songs db @ [song_doc newID (GenerateSongKey title artist) ytID]"
    by (simp add: c GenerateUniqueID_fresh_def)
  have p3: "list_all (\<lambda>d. \<not> matches ''_id'' (bson_uint32 songID) d) (songs db)
            \<and> list_all (\<lambda>d. field_or_null d ''_id'' \<noteq> bson_uint32 songID) (songs db)
            \<and> songs (snd (RegisterSong db newID title artist ytID)) =
                songs db @ [song_doc songID (GenerateSongKey title artist) ytID]"
    if s: "fst (RegisterSong db newID title artist ytID) = Inr songID" for songID
  proof -
    from s c have n: "\<not> list_ex (matches ''_id'' (bson_uint32 newID)) (songs db)"
      and e: "songID = newID"
      and r: "songs (snd (RegisterSong db newID title artist ytID)) =
                songs db @ [song_doc newID (GenerateSongKey title artist) ytID]"
      by (auto split: if_splits)
    from unmatched_identifier(1,2) [OF n] e r show ?thesis by simp
  qed
  have p4: "registry_inv (snd (RegisterSong db newID title artist ytID))"
  proof (cases "list_ex (matches ''_id'' (bson_uint32 newID)) (songs db)
         \<or> (BString ytID, BString (GenerateSongKey title artist)) \<in> set (map index_key (songs db))")
    case True
    then show ?thesis using assms(2) by (simp add: c registry_inv_def)
  next
    case False
    then have n: "\<not> list_ex (matches ''_id'' (bson_uint32 newID)) (songs db)" by simp
    from False assms(2) unmatched_identifier(3) [OF n] show ?thesis
      by (simp add: c registry_inv_def)
  qed
  from p1 p2 p3 p4 show ?thesis by blast
qed

text \<open>
  On the registry holding ("yt1", "Song---Band") under the identifier 42: the same song is
  a duplicate; another external reference, or another artist, is registered under the
  fresh identifier 43, which the song already there does not have.
\<close>

theorem RegisterSong_unique_witness:
  "fst (RegisterSong store1 43 ''Song'' ''Band'' ''yt1'') = Inl DuplicateSong
   \<and> songs (snd (RegisterSong store1 43 ''Song'' ''Band'' ''yt1'')) = songs store1
   \<and> GenerateUniqueID_fresh store1 43
   \<and> fst (RegisterSong store1 43 ''Song'' ''Band'' ''yt2'') = Inr 43
   \<and> fst (RegisterSong store1 43 ''Song'' ''Other'' ''yt1'') = Inr 43
   \<and> list_all (\<lambda>d. \<not> matches ''_id'' (bson_uint32 43) d) (songs store1)
   \<and> registry_inv (snd (RegisterSong store1 43 ''Song'' ''Band'' ''yt2''))"
proof -
  have h: "online store1" "registry_inv store1"
    by (simp_all add: store1_def store0_def registry_inv_def)
  have f: "GenerateUniqueID_fresh store1 43"
    by (simp add: store1_def store0_def GenerateUniqueID_fresh_def)
  have k: "map index_key (songs store1) = [(BString ''yt1'', BString ''Song---Band'')]"
    by (simp add: store1_def store0_def)
  note t1 = RegisterSong_unique [OF h, of "''yt1''" "''Song''" "''Band''" 43]
  note t2 = RegisterSong_unique [OF h, of "''yt2''" "''Song''" "''Band''" 43]
  note t3 = RegisterSong_unique [OF h, of "''yt1''" "''Song''" "''Other''" 43]
  from t1 have a: "fst (RegisterSong store1 43 ''Song'' ''Band'' ''yt1'') = Inl DuplicateSong
       \<and> songs (snd (RegisterSong store1 43 ''Song'' ''Band'' ''yt1'')) = songs store1"
    by (simp add: k GenerateSongKey_def)
  from t2 f have b: "fst (RegisterSong store1 43 ''Song'' ''Band'' ''yt2'') = Inr 43"
    by (simp add: k GenerateSongKey_def)
  from t3 f have c: "fst (RegisterSong store1 43 ''Song'' ''Other'' ''yt1'') = Inr 43"
    by (simp add: k GenerateSongKey_def)
  from t2 b have d: "list_all (\<lambda>d. \<not> matches ''_id'' (bson_uint32 43) d) (songs store1)"
    by blast
  from t2 have e: "registry_inv (snd (RegisterSong store1 43 ''Song'' ''Band'' ''yt2''))"
    by blast
  from a f b c d e show ?thesis by blast
qed

text \<open>
  Without the fresh identifier the registration of a new pair fails: the insertion meets
  the unique \<open>_id\<close>, and the duplicate-key error is reported as DuplicateSong.
\<close>

lemma RegisterSong_taken_identifier:
  "RegisterSong store1 42 ''Other'' ''Artist'' ''yt2'' = (Inl DuplicateSong, store1)"
  by (simp add: RegisterSong_def Indexes_CreateOne_def InsertOne_song_def store1_def store0_def
        Let_def song_doc_def matches_def field_or_null_def)

lemma find_append_none:
  "find P xs = None \<Longrightarrow> find P (xs @ ys) = find P ys"
  by (induction xs) (auto split: if_splits)

lemma Index_Cons_None:
  "strings_Index (c # cs) sep = None \<Longrightarrow> \<not> prefix sep (c # cs) \<and> strings_Index cs sep = None"
  by (simp split: if_splits)

lemma Index_title_key:
  "strings_Index t ''---'' = None \<Longrightarrow> t = [] \<or> last t \<noteq> CHR ''-'' \<Longrightarrow>
   strings_Index (t @ ''---'' @ a) ''---'' = Some (length t)"
proof (induction t)
  case Nil
  then show ?case by simp
next
  case (Cons c cs)
  from Cons.prems(1) have np: "\<not> prefix ''---'' (c # cs)" and n: "strings_Index cs ''---'' = None"
    using Index_Cons_None by blast+
  from Cons.prems(2) have l: "cs = [] \<or> last cs \<noteq> CHR ''-''" by (auto split: if_splits)
  have ih: "strings_Index (cs @ ''---'' @ a) ''---'' = Some (length cs)"
    using Cons.IH [OF n l] .
  have "\<not> prefix ''---'' ((c # cs) @ ''---'' @ a)"
  proof (cases cs)
    case Nil
    with Cons.prems(2) show ?thesis by simp
  next
    case (Cons d ds)
    note c1 = this
    show ?thesis
    proof (cases ds)
      case Nil
      with c1 Cons.prems(2) show ?thesis by simp
    next
      case (Cons e es)
      with c1 np show ?thesis by simp
    qed
  qed
  with ih show ?case by simp
qed

lemma Split_no_sep:
  "strings_Index s ''---'' = None \<Longrightarrow> strings_Split s ''---'' = [s]"
  by (subst strings_Split.simps) simp

lemma Index_key:
  assumes "title_separable t"
  shows "strings_Index (GenerateSongKey t a) ''---'' = Some (length t)"
  unfolding GenerateSongKey_def
  using assms by (intro Index_title_key) (auto simp: title_separable_def strings_Contains_def)

lemma split_first_key:
  assumes "title_separable t"
  shows "split_on_first_occurrence (GenerateSongKey t a) ''---'' = Some (t, a)"
  by (simp add: split_on_first_occurrence_def Index_key [OF assms])
     (simp add: GenerateSongKey_def)

lemma Split_cons:
  "\<exists>x xs. strings_Split s ''---'' = x # xs
     \<and> (strings_Index s ''---'' = None \<longrightarrow> x = s \<and> xs = [])"
  by (subst strings_Split.simps) (simp split: option.splits)

lemma Split_key:
  assumes "title_separable t"
  shows "strings_Split (GenerateSongKey t a) ''---'' = t # strings_Split a ''---''"
proof -
  have "strings_Split (GenerateSongKey t a) ''---'' =
          take (length t) (GenerateSongKey t a)
          # strings_Split (drop (length t + length ''---'') (GenerateSongKey t a)) ''---''"
    by (subst strings_Split.simps) (simp add: Index_key [OF assms])
  then show ?thesis by (simp add: GenerateSongKey_def)
qed

lemma GetSong_registered:
  assumes "online db" "GenerateUniqueID_fresh db newID"
      and "strings_Split key ''---'' = t # a # rest"
  shows "GetSong (db\<lparr>songs_index := True, songs := songs db @ [song_doc newID key ytID]\<rparr>)
           ''_id'' (bson_uint32 newID)
         = Inr (Some \<lparr>Title = t, Artist = a, YouTubeID = ytID\<rparr>)"
proof -
  have c: "strings_Contains FILTER_KEYS ''_id''"
    by (simp add: strings_Contains_def FILTER_KEYS_def)
  have "find (matches ''_id'' (bson_uint32 newID)) (songs db) = None"
    using assms(2) by (simp add: GenerateUniqueID_fresh_def find_None_iff list_ex_iff)
  then have f: "find (matches ''_id'' (bson_uint32 newID)) (songs db @ [song_doc newID key ytID])
                = Some (song_doc newID key ytID)"
    by (simp add: find_append_none)
  show ?thesis
    using assms(1) by (simp add: GetSong_def c FindOne_def f assms(3) Let_def)
qed

lemma store0_facts:
  "online store0" "registry_inv store0" "GenerateUniqueID_fresh store0 n" "songs store0 = []"
  by (simp_all add: store0_def registry_inv_def GenerateUniqueID_fresh_def)

text \<open>
  Claim C8, amended. For every title that holds no "---" and does not end in "-", and every
  artist: splitting the key \<open>title + "---" + artist\<close> on the first occurrence of the
  separator gives back exactly the title and the artist; and after such a song is
  registered (reachable registry, invariant, fresh identifier, pair not yet present) the
  song that \<open>GetSong\<close> returns for its identifier carries exactly the title that was
  registered, and exactly the artist that was registered when the artist holds no "---".
\<close>

theorem GetSong_recovers_title_artist:
  assumes "title_separable songTitle"
      and "online db" "registry_inv db" "GenerateUniqueID_fresh db newID"
      and "(BString ytID, BString (GenerateSongKey songTitle songArtist))
             \<notin> set (map index_key (songs db))"
  shows "split_on_first_occurrence (GenerateSongKey songTitle songArtist) ''---''
           = Some (songTitle, songArtist)
       \<and> fst (RegisterSong db newID songTitle songArtist ytID) = Inr newID
       \<and> (\<exists>art. GetSong (snd (RegisterSong db newID songTitle songArtist ytID))
                    ''_id'' (bson_uint32 newID)
                  = Inr (Some \<lparr>Title = songTitle, Artist = art, YouTubeID = ytID\<rparr>))
       \<and> (\<not> strings_Contains songArtist ''---'' \<longrightarrow>
            GetSong (snd (RegisterSong db newID songTitle songArtist ytID))
              ''_id'' (bson_uint32 newID)
            = Inr (Some \<lparr>Title = songTitle, Artist = songArtist, YouTubeID = ytID\<rparr>))"
proof -
  let ?key = "GenerateSongKey songTitle songArtist"
  let ?db' = "db\<lparr>songs_index := True, songs := songs db @ [song_doc newID ?key ytID]\<rparr>"
  have r: "RegisterSong db newID songTitle songArtist ytID = (Inr newID, ?db')"
    using assms(5) by (simp add: RegisterSong_result [OF assms(2,3,4)])
  from Split_cons [of songArtist] obtain x xs where
    x: "strings_Split songArtist ''---'' = x # xs"
       "strings_Index songArtist ''---'' = None \<longrightarrow> x = songArtist \<and> xs = []"
    by (elim exE conjE)
  have sp: "strings_Split ?key ''---'' = songTitle # x # xs"
    by (simp add: Split_key [OF assms(1)] x(1))
  have g: "GetSong ?db' ''_id'' (bson_uint32 newID)
             = Inr (Some \<lparr>Title = songTitle, Artist = x, YouTubeID = ytID\<rparr>)"
    by (rule GetSong_registered [OF assms(2,4) sp])
  have g': "\<not> strings_Contains songArtist ''---'' \<longrightarrow>
            GetSong ?db' ''_id'' (bson_uint32 newID)
            = Inr (Some \<lparr>Title = songTitle, Artist = songArtist, YouTubeID = ytID\<rparr>)"
    using g x(2) by (simp add: strings_Contains_def)
  from split_first_key [OF assms(1), of songArtist] r g g' show ?thesis by auto
qed

text \<open>
  The song "Hey Jude" by "The Beatles", registered in the empty store and read back.
\<close>

theorem GetSong_recovers_title_artist_witness:
  "title_separable ''Hey Jude'' \<and> \<not> strings_Contains ''The Beatles'' ''---''
   \<and> split_on_first_occurrence (GenerateSongKey ''Hey Jude'' ''The Beatles'') ''---''
        = Some (''Hey Jude'', ''The Beatles'')
   \<and> fst (RegisterSong store0 7 ''Hey Jude'' ''The Beatles'' ''yt9'') = Inr 7
   \<and> GetSong (snd (RegisterSong store0 7 ''Hey Jude'' ''The Beatles'' ''yt9'')) ''_id'' (bson_uint32 7)
       = Inr (Some \<lparr>Title = ''Hey Jude'', Artist = ''The Beatles'', YouTubeID = ''yt9''\<rparr>)"
proof -
  have s: "title_separable ''Hey Jude''"
    by (simp add: title_separable_def strings_Contains_def)
  have n: "\<not> strings_Contains ''The Beatles'' ''---''"
    by (simp add: strings_Contains_def)
  from GetSong_recovers_title_artist [OF s store0_facts(1,2,3), of "''yt9''" "''The Beatles''" 7]
  have "split_on_first_occurrence (GenerateSongKey ''Hey Jude'' ''The Beatles'') ''---''
           = Some (''Hey Jude'', ''The Beatles'')
       \<and> fst (RegisterSong store0 7 ''Hey Jude'' ''The Beatles'' ''yt9'') = Inr 7
       \<and> (\<not> strings_Contains ''The Beatles'' ''---'' \<longrightarrow>
            GetSong (snd (RegisterSong store0 7 ''Hey Jude'' ''The Beatles'' ''yt9''))
              ''_id'' (bson_uint32 7)
            = Inr (Some \<lparr>Title = ''Hey Jude'', Artist = ''The Beatles'', YouTubeID = ''yt9''\<rparr>))"
    by (simp add: store0_facts(4))
  with s n show ?thesis by blast
qed

lemma Split_eval_title_dash: "strings_Split ''a----b'' ''---'' = [''a'', ''-b'']"
proof -
  have i: "strings_Index ''a----b'' ''---'' = Some 1" by simp
  have n: "strings_Index ''-b'' ''---'' = None" by simp
  have "strings_Split ''a----b'' ''---'' = ''a'' # strings_Split ''-b'' ''---''"
    by (subst strings_Split.simps) (simp add: i)
  then show ?thesis by (simp add: Split_no_sep [OF n])
qed

lemma Split_eval_artist_sep: "strings_Split ''a---b---c'' ''---'' = [''a'', ''b'', ''c'']"
proof -
  have i1: "strings_Index ''a---b---c'' ''---'' = Some 1" by simp
  have i2: "strings_Index ''b---c'' ''---'' = Some 1" by simp
  have n: "strings_Index ''c'' ''---'' = None" by simp
  have "strings_Split ''a---b---c'' ''---'' = ''a'' # strings_Split ''b---c'' ''---''"
    by (subst strings_Split.simps) (simp add: i1)
  moreover have "strings_Split ''b---c'' ''---'' = ''b'' # strings_Split ''c'' ''---''"
    by (subst strings_Split.simps) (simp add: i2)
  ultimately show ?thesis by (simp add: Split_no_sep [OF n])
qed

text \<open>
  Claim C8 as stated fails, at two inputs. For the title "a-" and the artist "b" the key is
  "a----b", whose first "---" starts at offset 1: splitting on the first occurrence gives
  "a" and "-b", and so does \<open>GetSong\<close>. For the title "a" and the artist "b---c" the
  first occurrence does give back "a" and "b---c", but \<open>GetSong\<close> cuts the key at every
  "---" and returns the artist "b". The title "a---b" with the artist "c" has that same
  key, and its first occurrence gives "a" and "b---c".
\<close>

theorem GetSong_title_dash_counterexample:
  "split_on_first_occurrence (GenerateSongKey ''a-'' ''b'') ''---'' = Some (''a'', ''-b'')
   \<and> fst (RegisterSong store0 7 ''a-'' ''b'' ''yt9'') = Inr 7
   \<and> GetSong (snd (RegisterSong store0 7 ''a-'' ''b'' ''yt9'')) ''_id'' (bson_uint32 7)
       = Inr (Some \<lparr>Title = ''a'', Artist = ''-b'', YouTubeID = ''yt9''\<rparr>)
   \<and> split_on_first_occurrence (GenerateSongKey ''a'' ''b---c'') ''---'' = Some (''a'', ''b---c'')
   \<and> fst (RegisterSong store0 7 ''a'' ''b---c'' ''yt9'') = Inr 7
   \<and> GetSong (snd (RegisterSong store0 7 ''a'' ''b---c'' ''yt9'')) ''_id'' (bson_uint32 7)
       = Inr (Some \<lparr>Title = ''a'', Artist = ''b'', YouTubeID = ''yt9''\<rparr>)
   \<and> split_on_first_occurrence (GenerateSongKey ''a---b'' ''c'') ''---'' = Some (''a'', ''b---c'')"
proof -
  have k3: "GenerateSongKey ''a---b'' ''c'' = ''a---b---c''" by (simp add: GenerateSongKey_def)
  have k1: "GenerateSongKey ''a-'' ''b'' = ''a----b''" by (simp add: GenerateSongKey_def)
  have k2: "GenerateSongKey ''a'' ''b---c'' = ''a---b---c''" by (simp add: GenerateSongKey_def)
  have f1: "split_on_first_occurrence ''a----b'' ''---'' = Some (''a'', ''-b'')"
    by (simp add: split_on_first_occurrence_def)
  have f2: "split_on_first_occurrence ''a---b---c'' ''---'' = Some (''a'', ''b---c'')"
    by (simp add: split_on_first_occurrence_def)
  have g1: "GetSong (store0\<lparr>songs_index := True,
                 songs := songs store0 @ [song_doc 7 ''a----b'' ''yt9'']\<rparr>) ''_id'' (bson_uint32 7)
              = Inr (Some \<lparr>Title = ''a'', Artist = ''-b'', YouTubeID = ''yt9''\<rparr>)"
    by (rule GetSong_registered [OF store0_facts(1) store0_facts(3)])
       (simp add: Split_eval_title_dash)
  have g2: "GetSong (store0\<lparr>songs_index := True,
                 songs := songs store0 @ [song_doc 7 ''a---b---c'' ''yt9'']\<rparr>) ''_id'' (bson_uint32 7)
              = Inr (Some \<lparr>Title = ''a'', Artist = ''b'', YouTubeID = ''yt9''\<rparr>)"
    by (rule GetSong_registered [OF store0_facts(1) store0_facts(3)])
       (simp add: Split_eval_artist_sep)
  show ?thesis
    using g1 g2
    by (simp add: RegisterSong_result [OF store0_facts(1,2,3)] store0_facts(4) k1 k2 k3 f1 f2)
qed

subsection \<open>StoreFingerprints and GetCouples\<close>

lemma GetCouples_single:
  "GetCouples db [a] = map_sum id (bucket_map a) (bucket_of db a)"
  by (auto simp: GetCouples_def bucket_of_def bucket_map_def FindOne_def
        split: option.splits bson.splits sum.splits)

lemma couple_decode:
  "\<lparr>AnchorTimeMs = word_of_int (uint (AnchorTimeMs c)), SongID = word_of_int (uint (SongID c))\<rparr> = c"
  by (cases c) simp

lemma couples_loop_snoc:
  "couples_loop a (xs @ [couple_item c]) acc = map_sum id (\<lambda>cs. cs @ [c]) (couples_loop a xs acc)"
proof (induction xs arbitrary: acc)
  case Nil
  then show ?case by (simp add: couple_item_def bson_uint32_def couple_decode)
next
  case (Cons x xs)
  then show ?case by (simp split: bson.splits option.splits)
qed

lemma map_of_set_field:
  "map_of (set_field d k v) k' = (if k' = k then Some v else map_of d k')"
  by (induction d) auto

lemma push_field_couples:
  assumes "map_of d ''couples'' = None \<or> (\<exists>l. map_of d ''couples'' = Some (BArray l))"
  shows "\<exists>d'. push_field d ''couples'' item = Inr d'
           \<and> map_of d' ''_id'' = map_of d ''_id''
           \<and> map_of d' ''couples'' =
               Some (BArray ((case map_of d ''couples'' of Some (BArray l) \<Rightarrow> l | _ \<Rightarrow> []) @ [item]))"
  using assms by (auto simp: push_field_def map_of_set_field)

lemma find_append_cases:
  "find P (xs @ ys) = (case find P xs of None \<Rightarrow> find P ys | Some x \<Rightarrow> Some x)"
  by (induction xs) auto

lemma push_first_upsert:
  "find (matches ''_id'' ident) coll = None \<Longrightarrow>
   push_first coll ident f item = Inr (coll @ [ [(''_id'', ident), (f, BArray [item])] ])"
  by (induction coll) (auto split: if_splits)

lemma push_first_update:
  assumes "find (matches ''_id'' ident) coll = Some d" "push_field d f item = Inr d'"
      and "matches ''_id'' ident d'"
  shows "\<exists>coll'. push_first coll ident f item = Inr coll'
           \<and> find (matches ''_id'' ident) coll' = Some d'
           \<and> (\<forall>Q. \<not> Q d \<longrightarrow> \<not> Q d' \<longrightarrow> find Q coll' = find Q coll)"
  using assms
proof (induction coll)
  case Nil
  then show ?case by simp
next
  case (Cons x xs)
  show ?case
  proof (cases "matches ''_id'' ident x")
    case True
    with Cons.prems show ?thesis by auto
  next
    case False
    with Cons.prems have "find (matches ''_id'' ident) xs = Some d" by simp
    from Cons.IH [OF this Cons.prems(2,3)] obtain coll' where
      c: "push_first xs ident f item = Inr coll'"
         "find (matches ''_id'' ident) coll' = Some d'"
         "\<forall>Q. \<not> Q d \<longrightarrow> \<not> Q d' \<longrightarrow> find Q coll' = find Q xs"
      by blast
    with False show ?thesis by auto
  qed
qed

lemma matches_id_iff:
  "matches ''_id'' (bson_uint32 a) d = (canon (field_or_null d ''_id'') = BInt64 (uint a))"
  by (simp add: matches_def)

lemma matches_id_other:
  "matches ''_id'' (bson_uint32 a) d \<Longrightarrow> a' \<noteq> a \<Longrightarrow> \<not> matches ''_id'' (bson_uint32 a') d"
  by (simp add: matches_id_iff word_uint_eq_iff)

lemma bucket_step:
  assumes "online db" "bucket_of db a = Inr b"
  shows "\<exists>coll. UpdateOne_push_upsert (online db) (fingerprints db) (bson_uint32 a)
                   ''couples'' (couple_item c) = Inr coll
           \<and> bucket_of (db\<lparr>fingerprints := coll\<rparr>) a = Inr (Some (couples_of b @ [c]))
           \<and> (\<forall>a'. a' \<noteq> a \<longrightarrow> bucket_of (db\<lparr>fingerprints := coll\<rparr>) a' = bucket_of db a')"
proof (cases "find (matches ''_id'' (bson_uint32 a)) (fingerprints db)")
  case None
  let ?new = "[(''_id'', bson_uint32 a), (''couples'', BArray [couple_item c])]"
  let ?coll = "fingerprints db @ [?new]"
  have u: "UpdateOne_push_upsert (online db) (fingerprints db) (bson_uint32 a)
             ''couples'' (couple_item c) = Inr ?coll"
    using assms(1) None by (simp add: UpdateOne_push_upsert_def push_first_upsert)
  have m: "matches ''_id'' (bson_uint32 a') ?new = (a' = a)" for a'
    by (auto simp: matches_def field_or_null_def word_uint_eq_iff)
  from assms None have b: "b = None" by (simp add: bucket_of_def)
  have s: "bucket_of (db\<lparr>fingerprints := ?coll\<rparr>) a = Inr (Some (couples_of b @ [c]))"
    using assms(1) None b couples_loop_snoc [of a "[]" c "[]"]
    by (simp add: bucket_of_def find_append_cases m couples_of_def)
  have o: "bucket_of (db\<lparr>fingerprints := ?coll\<rparr>) a' = bucket_of db a'" if "a' \<noteq> a" for a'
    using that by (simp add: bucket_of_def find_append_cases m split: option.splits)
  from u s o show ?thesis by blast
next
  case (Some d)
  with assms obtain l where l: "map_of d ''couples'' = Some (BArray l)"
    and ms: "map_sum id Some (couples_loop a l []) = Inr b"
    by (auto simp: bucket_of_def split: option.splits bson.splits)
  from ms obtain cs where "couples_loop a l [] = Inr cs" "b = Some cs"
    by (cases "couples_loop a l []") auto
  then have dec: "couples_loop a l [] = Inr (couples_of b)"
    by (simp add: couples_of_def)
  from push_field_couples [of d "couple_item c"] l obtain d' where
    d': "push_field d ''couples'' (couple_item c) = Inr d'"
        "map_of d' ''_id'' = map_of d ''_id''"
        "map_of d' ''couples'' = Some (BArray (l @ [couple_item c]))"
    by auto
  from Some have md: "matches ''_id'' (bson_uint32 a) d"
    by (auto simp: find_Some_iff)
  then have md': "matches ''_id'' (bson_uint32 a) d'"
    using d'(2) by (simp add: matches_def field_or_null_def)
  from push_first_update [OF Some d'(1) md'] obtain coll' where
    c: "push_first (fingerprints db) (bson_uint32 a) ''couples'' (couple_item c) = Inr coll'"
       "find (matches ''_id'' (bson_uint32 a)) coll' = Some d'"
       "\<forall>Q. \<not> Q d \<longrightarrow> \<not> Q d' \<longrightarrow> find Q coll' = find Q (fingerprints db)"
    by blast
  have u: "UpdateOne_push_upsert (online db) (fingerprints db) (bson_uint32 a)
             ''couples'' (couple_item c) = Inr coll'"
    using assms(1) c(1) by (simp add: UpdateOne_push_upsert_def)
  have s: "bucket_of (db\<lparr>fingerprints := coll'\<rparr>) a = Inr (Some (couples_of b @ [c]))"
    using assms(1) c(2) d'(3) dec couples_loop_snoc [of a l c "[]"]
    by (simp add: bucket_of_def)
  have o: "bucket_of (db\<lparr>fingerprints := coll'\<rparr>) a' = bucket_of db a'" if "a' \<noteq> a" for a'
  proof -
    have "find (matches ''_id'' (bson_uint32 a')) coll'
            = find (matches ''_id'' (bson_uint32 a')) (fingerprints db)"
      using c(3) [rule_format, of "matches ''_id'' (bson_uint32 a')"]
            matches_id_other [OF md that] matches_id_other [OF md' that] by simp
    then show ?thesis by (simp add: bucket_of_def)
  qed
  from u s o show ?thesis by blast
qed

lemma StoreFingerprints_buckets:
  assumes "online db" "distinct (map fst fps)" "\<forall>a \<in> fst ` set fps. \<exists>b. bucket_of db a = Inr b"
  shows "\<exists>db'. StoreFingerprints db fps = (None, db') \<and> online db' \<and> songs db' = songs db
           \<and> (\<forall>a. bucket_of db' a =
                 (case map_of fps a of
                    None \<Rightarrow> bucket_of db a
                  | Some c \<Rightarrow> map_sum id (\<lambda>b. Some (couples_of b @ [c])) (bucket_of db a)))"
  using assms
proof (induction fps arbitrary: db)
  case Nil
  then show ?case by simp
next
  case (Cons p rest)
  obtain a c where p: "p = (a, c)" by (cases p)
  from Cons.prems(3) p obtain b where b: "bucket_of db a = Inr b" by auto
  from bucket_step [OF Cons.prems(1) b, of c] obtain coll where
    st: "UpdateOne_push_upsert (online db) (fingerprints db) (bson_uint32 a)
           ''couples'' (couple_item c) = Inr coll"
        "bucket_of (db\<lparr>fingerprints := coll\<rparr>) a = Inr (Some (couples_of b @ [c]))"
        "\<forall>a'. a' \<noteq> a \<longrightarrow> bucket_of (db\<lparr>fingerprints := coll\<rparr>) a' = bucket_of db a'"
    by blast
  let ?db1 = "db\<lparr>fingerprints := coll\<rparr>"
  have na: "a \<notin> fst ` set rest" using Cons.prems(2) p by auto
  have h1: "online ?db1" using Cons.prems(1) by simp
  have h2: "distinct (map fst rest)" using Cons.prems(2) by simp
  have h3: "\<forall>x \<in> fst ` set rest. \<exists>b. bucket_of ?db1 x = Inr b"
  proof
    fix x assume x: "x \<in> fst ` set rest"
    with na have "x \<noteq> a" by auto
    with st(3) have "bucket_of ?db1 x = bucket_of db x" by simp
    moreover from x Cons.prems(3) have "\<exists>b. bucket_of db x = Inr b" by auto
    ultimately show "\<exists>b. bucket_of ?db1 x = Inr b" by simp
  qed
  from Cons.IH [OF h1 h2 h3] obtain db' where
    r: "StoreFingerprints ?db1 rest = (None, db')" "online db'" "songs db' = songs ?db1"
       "\<forall>x. bucket_of db' x =
          (case map_of rest x of
             None \<Rightarrow> bucket_of ?db1 x
           | Some c \<Rightarrow> map_sum id (\<lambda>b. Some (couples_of b @ [c])) (bucket_of ?db1 x))"
    by blast
  have m: "map_of rest a = None" using na by (simp add: map_of_eq_None_iff)
  have "bucket_of db' x =
          (case map_of (p # rest) x of
             None \<Rightarrow> bucket_of db x
           | Some c \<Rightarrow> map_sum id (\<lambda>b. Some (couples_of b @ [c])) (bucket_of db x))" for x
  proof (cases "x = a")
    case True
    then show ?thesis using r(4) m st(2) b p by simp
  next
    case False
    with st(3) have "bucket_of ?db1 x = bucket_of db x" by simp
    with False show ?thesis using r(4) p by (cases "map_of rest x") simp_all
  qed
  with r(1,2,3) st(1) p show ?case by simp
qed

lemma GetCouples_Inr_bucket:
  "GetCouples db [a] = Inr m \<Longrightarrow> bucket_of db a = Inr (m a)"
  by (cases "bucket_of db a")
     (auto simp: GetCouples_single bucket_map_def split: option.splits)

lemma bucket_GetCouples:
  "bucket_of db a = Inr (Some cs) \<Longrightarrow> GetCouples db [a] = Inr [a \<mapsto> cs]"
  by (simp add: GetCouples_single bucket_map_def)

lemma StoreFingerprints_GetCouples:
  assumes "online db" "distinct (map fst fps)"
      and "\<forall>a \<in> fst ` set fps. \<exists>m. GetCouples db [a] = Inr m"
  shows "\<exists>db'. StoreFingerprints db fps = (None, db')
           \<and> (\<forall>a c. (a, c) \<in> set fps \<longrightarrow>
                 (\<exists>m. GetCouples db [a] = Inr m
                      \<and> GetCouples db' [a] = Inr [a \<mapsto> couples_of (m a) @ [c]]))
           \<and> (\<forall>a. a \<notin> fst ` set fps \<longrightarrow> GetCouples db' [a] = GetCouples db [a])"
proof -
  have h: "\<forall>a \<in> fst ` set fps. \<exists>b. bucket_of db a = Inr b"
    using assms(3) GetCouples_Inr_bucket by blast
  from StoreFingerprints_buckets [OF assms(1,2) h] obtain db' where
    r: "StoreFingerprints db fps = (None, db')"
       "\<forall>a. bucket_of db' a =
          (case map_of fps a of
             None \<Rightarrow> bucket_of db a
           | Some c \<Rightarrow> map_sum id (\<lambda>b. Some (couples_of b @ [c])) (bucket_of db a))"
    by blast
  have p1: "\<exists>m. GetCouples db [a] = Inr m
               \<and> GetCouples db' [a] = Inr [a \<mapsto> couples_of (m a) @ [c]]"
    if "(a, c) \<in> set fps" for a c
  proof -
    from that assms(3) obtain m where m: "GetCouples db [a] = Inr m" by force
    from that assms(2) have "map_of fps a = Some c" by simp
    with r(2) GetCouples_Inr_bucket [OF m]
    have "bucket_of db' a = Inr (Some (couples_of (m a) @ [c]))" by simp
    with m show ?thesis by (auto intro: bucket_GetCouples)
  qed
  have p2: "GetCouples db' [a] = GetCouples db [a]" if "a \<notin> fst ` set fps" for a
  proof -
    from that have "map_of fps a = None" by (simp add: map_of_eq_None_iff)
    with r(2) have "bucket_of db' a = bucket_of db a" by simp
    then show ?thesis by (simp add: GetCouples_single)
  qed
  from r(1) p1 p2 show ?thesis by blast
qed

lemma StoreFingerprints_twice:
  assumes "online db" "GetCouples db [a] = Inr m"
  shows "\<exists>db1 db2. StoreFingerprints db [(a, c1)] = (None, db1)
           \<and> StoreFingerprints db1 [(a, c2)] = (None, db2)
           \<and> GetCouples db2 [a] = Inr [a \<mapsto> couples_of (m a) @ [c1, c2]]"
proof -
  have b0: "bucket_of db a = Inr (m a)" using assms(2) by (rule GetCouples_Inr_bucket)
  from StoreFingerprints_buckets [of db "[(a, c1)]"] assms(1) b0 obtain db1 where
    s1: "StoreFingerprints db [(a, c1)] = (None, db1)" "online db1"
        "bucket_of db1 a = Inr (Some (couples_of (m a) @ [c1]))"
    by force
  from StoreFingerprints_buckets [of db1 "[(a, c2)]"] s1(2,3) obtain db2 where
    s2: "StoreFingerprints db1 [(a, c2)] = (None, db2)"
        "bucket_of db2 a = Inr (Some (couples_of (Some (couples_of (m a) @ [c1])) @ [c2]))"
    by force
  from s2(2) have "GetCouples db2 [a] = Inr [a \<mapsto> couples_of (m a) @ [c1, c2]]"
    by (simp add: GetCouples_single bucket_map_def couples_of_def)
  with s1(1) s2(1) show ?thesis by blast
qed

text \<open>
  Claim C2, amended. \<open>StoreFingerprints\<close> takes a map from each address to one couple. On
  a reachable store, when every address of the map has no bucket or a bucket that
  \<open>GetCouples\<close> can read, the call succeeds, the couple of each address is appended at
  the end of its bucket (a new bucket holds just that couple), and the buckets of all other
  addresses read as before. In particular, storing \<open>c1\<close> at an address, then \<open>c2\<close> at the
  same address, and reading the address returns what the bucket held, then \<open>c1\<close>, then
  \<open>c2\<close>.
\<close>

theorem StoreFingerprints_appends:
  assumes "online db"
  shows "(distinct (map fst fps) \<and> (\<forall>a \<in> fst ` set fps. \<exists>m. GetCouples db [a] = Inr m) \<longrightarrow>
            (\<exists>db'. StoreFingerprints db fps = (None, db')
               \<and> (\<forall>a c. (a, c) \<in> set fps \<longrightarrow>
                     (\<exists>m. GetCouples db [a] = Inr m
                          \<and> GetCouples db' [a] = Inr [a \<mapsto> couples_of (m a) @ [c]]))
               \<and> (\<forall>a. a \<notin> fst ` set fps \<longrightarrow> GetCouples db' [a] = GetCouples db [a])))
       \<and> (GetCouples db [addrA] = Inr m0 \<longrightarrow>
            (\<exists>db1 db2. StoreFingerprints db [(addrA, c1)] = (None, db1)
               \<and> StoreFingerprints db1 [(addrA, c2)] = (None, db2)
               \<and> GetCouples db2 [addrA] = Inr [addrA \<mapsto> couples_of (m0 addrA) @ [c1, c2]]))"
  using StoreFingerprints_GetCouples [OF assms, of fps]
        StoreFingerprints_twice [OF assms, of addrA m0 c1 c2]
  by blast

lemma GetCouples_store0: "GetCouples store0 [a] = Inr Map.empty"
  by (simp add: GetCouples_def FindOne_def store0_def)

text \<open>
  On the empty store: one call with two addresses, and two calls on the address 5.
\<close>

theorem StoreFingerprints_appends_witness:
  "(\<exists>db'. StoreFingerprints store0 [(5, couple_a), (6, couple_b)] = (None, db')
       \<and> GetCouples db' [5] = Inr [5 \<mapsto> [couple_a]]
       \<and> GetCouples db' [6] = Inr [6 \<mapsto> [couple_b]]
       \<and> GetCouples db' [7] = Inr Map.empty)
   \<and> (\<exists>db1 db2. StoreFingerprints store0 [(5, couple_a)] = (None, db1)
       \<and> StoreFingerprints db1 [(5, couple_b)] = (None, db2)
       \<and> GetCouples db2 [5] = Inr [5 \<mapsto> [couple_a, couple_b]])"
proof -
  have o: "online store0" by (simp add: store0_def)
  note t = StoreFingerprints_appends [OF o, of "[(5, couple_a), (6, couple_b)]" 5 Map.empty
             couple_a couple_b]
  from t have "\<exists>db'. StoreFingerprints store0 [(5, couple_a), (6, couple_b)] = (None, db')
       \<and> (\<forall>a c. (a, c) \<in> set [(5, couple_a), (6, couple_b)] \<longrightarrow>
             (\<exists>m. GetCouples store0 [a] = Inr m
                  \<and> GetCouples db' [a] = Inr [a \<mapsto> couples_of (m a) @ [c]]))
       \<and> (\<forall>a. a \<notin> fst ` set [(5, couple_a), (6, couple_b)] \<longrightarrow>
             GetCouples db' [a] = GetCouples store0 [a])"
    by (simp add: GetCouples_store0)
  then obtain db' where
    d: "StoreFingerprints store0 [(5, couple_a), (6, couple_b)] = (None, db')"
       "\<forall>a c. (a, c) \<in> set [(5, couple_a), (6, couple_b)] \<longrightarrow>
             (\<exists>m. GetCouples store0 [a] = Inr m
                  \<and> GetCouples db' [a] = Inr [a \<mapsto> couples_of (m a) @ [c]])"
       "\<forall>a. a \<notin> fst ` set [(5, couple_a), (6, couple_b)] \<longrightarrow>
             GetCouples db' [a] = GetCouples store0 [a]"
    by blast
  from d(2) [rule_format, of 5 couple_a] have g5: "GetCouples db' [5] = Inr [5 \<mapsto> [couple_a]]"
    by (simp add: GetCouples_store0 couples_of_def)
  from d(2) [rule_format, of 6 couple_b] have g6: "GetCouples db' [6] = Inr [6 \<mapsto> [couple_b]]"
    by (simp add: GetCouples_store0 couples_of_def)
  from d(3) [rule_format, of 7] have g7: "GetCouples db' [7] = Inr Map.empty"
    by (simp add: GetCouples_store0)
  from t have "\<exists>db1 db2. StoreFingerprints store0 [(5, couple_a)] = (None, db1)
       \<and> StoreFingerprints db1 [(5, couple_b)] = (None, db2)
       \<and> GetCouples db2 [5] = Inr [5 \<mapsto> [couple_a, couple_b]]"
    by (simp add: GetCouples_store0 couples_of_def)
  with d(1) g5 g6 g7 show ?thesis by blast
qed

text \<open>
  Claim C2 as stated fails: the argument holds one couple for an address, not a sequence. No
  argument makes one call on the empty store leave the two couples \<open>couple_a\<close>,
  \<open>couple_b\<close> in the bucket of address 7, as the mapping from 7 to that sequence would.
\<close>

theorem StoreFingerprints_one_couple_counterexample:
  "\<not> (\<exists>fps db'. distinct (map fst fps)
         \<and> StoreFingerprints store0 fps = (None, db')
         \<and> GetCouples db' [7] = Inr [7 \<mapsto> [couple_a, couple_b]])"
proof
  assume "\<exists>fps db'. distinct (map fst fps)
         \<and> StoreFingerprints store0 fps = (None, db')
         \<and> GetCouples db' [7] = Inr [7 \<mapsto> [couple_a, couple_b]]"
  then obtain fps db' where
    a: "distinct (map fst fps)" "StoreFingerprints store0 fps = (None, db')"
       "GetCouples db' [7] = Inr [7 \<mapsto> [couple_a, couple_b]]"
    by blast
  have o: "online store0" by (simp add: store0_def)
  have e: "bucket_of store0 x = Inr None" for x
    by (simp add: bucket_of_def store0_def)
  from StoreFingerprints_buckets [OF o a(1)] e a(2)
  have "bucket_of db' 7 =
          (case map_of fps 7 of None \<Rightarrow> Inr None | Some c \<Rightarrow> Inr (Some [c]))"
    by (auto simp: couples_of_def split: option.splits)
  moreover from a(3) have "bucket_of db' 7 = Inr (Some [couple_a, couple_b])"
    using GetCouples_Inr_bucket by fastforce
  ultimately show False by (simp split: option.splits)
qed

end
